theory Spec2Isabelle
  imports Main "HOL-Library.AList"
begin

section \<open>Values, dictionaries and exceptions of the Python program\<close>

text \<open>
  The program (\<^verbatim>\<open>src/main.py\<close>) moves property maps of graph nodes around as
  Python dictionaries and never checks the type of a value it reads. A value is therefore
  modelled dynamically: \<open>None\<close>, a boolean, an integer, a string, a datetime of the store
  (its epoch milliseconds), a list, or a dictionary. A dictionary is an association list
  with distinct keys in insertion order, read with \<open>map_of\<close> and written with
  \<open>AList.update\<close> (a new key goes to the end, an old key keeps its place), which is
  what Python's \<^verbatim>\<open>d[k] = v\<close> does.
\<close>

datatype pyval =
    VNone
  | VBool bool
  | VInt int
  | VStr string
  | VDateTime int
  | VList "pyval list"
  | VDict "(string \<times> pyval) list"

type_synonym pydict = "(string \<times> pyval) list"

text \<open>The exceptions the modelled code can raise; \<open>KeyError\<close> carries the missing key,
  \<open>UnboundLocalError\<close> the name of the local variable.\<close>

datatype error =
    KeyError string
  | TypeError
  | AttributeError
  | UnboundLocalError string

definition ebind :: "error + 'a \<Rightarrow> ('a \<Rightarrow> error + 'b) \<Rightarrow> error + 'b" where
  "ebind m f = (case m of Inl e \<Rightarrow> Inl e | Inr x \<Rightarrow> f x)"

text \<open>A list comprehension whose body may raise: elements are evaluated left to right and
  the first exception ends the evaluation.\<close>

fun emap :: "('a \<Rightarrow> error + 'b) \<Rightarrow> 'a list \<Rightarrow> error + 'b list" where
  "emap f [] = Inr []"
| "emap f (x # xs) = ebind (f x) (\<lambda>y. ebind (emap f xs) (\<lambda>ys. Inr (y # ys)))"

text \<open>\<^verbatim>\<open>obj[k]\<close> with a string key: a dictionary raises \<open>KeyError\<close> on an absent key,
  every other value raises \<open>TypeError\<close>.\<close>

fun getitem :: "pyval \<Rightarrow> string \<Rightarrow> error + pyval" where
  "getitem (VDict d) k = (case map_of d k of None \<Rightarrow> Inl (KeyError k) | Some v \<Rightarrow> Inr v)"
| "getitem _ k = Inl TypeError"

text \<open>\<^verbatim>\<open>obj.get(k)\<close>: a dictionary answers \<open>None\<close> for an absent key; no other value
  of the model has a \<^verbatim>\<open>get\<close> attribute.\<close>

fun dict_get :: "pyval \<Rightarrow> string \<Rightarrow> error + pyval" where
  "dict_get (VDict d) k = Inr (case map_of d k of None \<Rightarrow> VNone | Some v \<Rightarrow> v)"
| "dict_get _ k = Inl AttributeError"

text \<open>Truth value of a value in a condition.\<close>

fun truthy :: "pyval \<Rightarrow> bool" where
  "truthy VNone = False"
| "truthy (VBool b) = b"
| "truthy (VInt i) = (i \<noteq> 0)"
| "truthy (VStr s) = (s \<noteq> [])"
| "truthy (VDateTime t) = True"
| "truthy (VList xs) = (xs \<noteq> [])"
| "truthy (VDict d) = (d \<noteq> [])"

text \<open>The elements a \<^verbatim>\<open>for\<close> visits: the items of a list, the characters of a string,
  the keys of a dictionary; the other values are not iterable.\<close>

fun iter :: "pyval \<Rightarrow> error + pyval list" where
  "iter (VList xs) = Inr xs"
| "iter (VStr s) = Inr (map (\<lambda>c. VStr [c]) s)"
| "iter (VDict d) = Inr (map (\<lambda>kv. VStr (fst kv)) d)"
| "iter _ = Inl TypeError"

section \<open>The typed records and their marshalling (Record Mapper)\<close>

text \<open>
  The classes \<^verbatim>\<open>Answer\<close>, \<^verbatim>\<open>Question\<close> and \<^verbatim>\<open>Application\<close>. The constructors
  store whatever value they are given, so every field holds a \<open>pyval\<close>. The three
  classes share field names; the record fields carry the class as a prefix.
\<close>

datatype AnswerType = AT_string | AT_bool | AT_float | AT_int | AT_list | AT_label | AT_date

fun AnswerType_value :: "AnswerType \<Rightarrow> string" where
  "AnswerType_value AT_string = ''String''"
| "AnswerType_value AT_bool = ''Bool''"
| "AnswerType_value AT_float = ''Float''"
| "AnswerType_value AT_int = ''Int''"
| "AnswerType_value AT_list = ''List''"
| "AnswerType_value AT_label = ''Label''"
| "AnswerType_value AT_date = ''Date''"

record Answer =
  ans_uuid :: pyval
  ans_answer :: pyval
  ans_type :: pyval
  ans_createdAt :: pyval
  ans_updatedAt :: pyval

record Question =
  q_uuid :: pyval
  q_sectionUuid :: pyval
  q_order :: pyval
  q_type :: pyval
  q_questionString :: pyval
  q_answer :: "Answer option"

record Application =
  app_uuid :: pyval
  app_name :: pyval
  app_version :: pyval
  app_createdAt :: pyval
  app_updatedAt :: pyval
  app_questions :: "Question list"

text \<open>\<^verbatim>\<open>Answer.marshal(obj)\<close>: the keyword arguments are evaluated in the order written.\<close>

definition Answer_marshal :: "pyval \<Rightarrow> error + Answer" where
  "Answer_marshal obj =
     ebind (getitem obj ''uuid'') (\<lambda>u.
     ebind (getitem obj ''answer'') (\<lambda>a.
     ebind (getitem obj ''type'') (\<lambda>t.
     ebind (getitem obj ''created_at'') (\<lambda>c.
     ebind (getitem obj ''updated_at'') (\<lambda>m.
       Inr \<lparr>ans_uuid = u, ans_answer = a, ans_type = t,
            ans_createdAt = c, ans_updatedAt = m\<rparr>)))))"

text \<open>\<^verbatim>\<open>Question.marshal(question, answer=None)\<close>: the answer is marshalled first, unless
  it is \<open>None\<close>.\<close>

definition Question_marshal :: "pyval \<Rightarrow> pyval \<Rightarrow> error + Question" where
  "Question_marshal question answer =
     ebind (if answer = VNone then Inr None
            else ebind (Answer_marshal answer) (\<lambda>a. Inr (Some a))) (\<lambda>answer'.
     ebind (getitem question ''uuid'') (\<lambda>u.
     ebind (getitem question ''section_uuid'') (\<lambda>s.
     ebind (getitem question ''order'') (\<lambda>ord.
     ebind (getitem question ''type'') (\<lambda>t.
     ebind (getitem question ''question_string'') (\<lambda>qs.
       Inr \<lparr>q_uuid = u, q_sectionUuid = s, q_order = ord, q_type = t,
            q_questionString = qs, q_answer = answer'\<rparr>))))))"

text \<open>\<^verbatim>\<open>Application.marshal(application)\<close>: \<^verbatim>\<open>questions\<close> is read with \<^verbatim>\<open>get\<close> and
  replaced by the empty list when it is falsy; the five header keys are read next, and
  the comprehension over \<^verbatim>\<open>questions\<close> runs last. (The \<^verbatim>\<open>print\<close> call only writes to
  standard output and is left out.)\<close>

definition marshal_entry :: "pyval \<Rightarrow> error + Question" where
  "marshal_entry question =
     ebind (dict_get question ''question'') (\<lambda>q.
     ebind (dict_get question ''answer'') (\<lambda>a.
       Question_marshal q a))"

definition Application_marshal :: "pyval \<Rightarrow> error + Application" where
  "Application_marshal application =
     ebind (dict_get application ''questions'') (\<lambda>qs0.
     let questions = (if truthy qs0 then qs0 else VList []) in
     ebind (getitem application ''uuid'') (\<lambda>u.
     ebind (getitem application ''name'') (\<lambda>n.
     ebind (getitem application ''version'') (\<lambda>v.
     ebind (getitem application ''created_at'') (\<lambda>c.
     ebind (getitem application ''updated_at'') (\<lambda>m.
     ebind (iter questions) (\<lambda>items.
     ebind (emap marshal_entry items) (\<lambda>qs.
       Inr \<lparr>app_uuid = u, app_name = n, app_version = v,
            app_createdAt = c, app_updatedAt = m, app_questions = qs\<rparr>))))))))"

section \<open>Reconciliation of the two traversals (\<^verbatim>\<open>Query.getApplicationWithQuestion\<close>)\<close>

text \<open>
  A row of the answered traversal (\<^verbatim>\<open>RETURN app, q, qa, ans\<close>) and of the unanswered one
  (\<^verbatim>\<open>RETURN app, q\<close>); each column is the property map of a node or relationship, so
  \<^verbatim>\<open>row['app']\<close> and \<^verbatim>\<open>dict(row['q'])\<close> cannot fail.
\<close>

record ans_row =
  ar_app :: pydict
  ar_q :: pydict
  ar_qa :: pydict
  ar_ans :: pydict

record no_ans_row =
  nr_app :: pydict
  nr_q :: pydict

text \<open>\<^verbatim>\<open>app = dict(rows[0]['app']); app['questions'] = list()\<close>, guarded by
  \<^verbatim>\<open>if rows:\<close>. The local variable \<^verbatim>\<open>app\<close> is \<open>None\<close> while it is unbound.\<close>

definition pick_ans :: "ans_row list \<Rightarrow> pydict option \<Rightarrow> pydict option" where
  "pick_ans ans_rows app =
     (case ans_rows of [] \<Rightarrow> app
      | row # _ \<Rightarrow> Some (AList.update ''questions'' (VList []) (ar_app row)))"

definition pick_no_ans :: "no_ans_row list \<Rightarrow> pydict option \<Rightarrow> pydict option" where
  "pick_no_ans no_ans_rows app =
     (case no_ans_rows of [] \<Rightarrow> app
      | row # _ \<Rightarrow> Some (AList.update ''questions'' (VList []) (nr_app row)))"

text \<open>\<^verbatim>\<open>app['questions'].append(entry)\<close>, with every way it could raise written out.\<close>

definition questions_append :: "pydict option \<Rightarrow> pyval \<Rightarrow> error + pydict option" where
  "questions_append app entry =
     (case app of
        None \<Rightarrow> Inl (UnboundLocalError ''app'')
      | Some d \<Rightarrow>
          (case map_of d ''questions'' of
             None \<Rightarrow> Inl (KeyError ''questions'')
           | Some (VList qs) \<Rightarrow> Inr (Some (AList.update ''questions'' (VList (qs @ [entry])) d))
           | Some _ \<Rightarrow> Inl AttributeError))"

definition ans_entry :: "ans_row \<Rightarrow> pyval" where
  "ans_entry row = VDict [(''question'', VDict (ar_q row)), (''answer'', VDict (ar_ans row))]"

definition no_ans_entry :: "no_ans_row \<Rightarrow> pyval" where
  "no_ans_entry row = VDict [(''question'', VDict (nr_q row))]"

fun append_ans_rows :: "ans_row list \<Rightarrow> pydict option \<Rightarrow> error + pydict option" where
  "append_ans_rows [] app = Inr app"
| "append_ans_rows (row # rows) app =
     ebind (questions_append app (ans_entry row)) (append_ans_rows rows)"

fun append_no_ans_rows :: "no_ans_row list \<Rightarrow> pydict option \<Rightarrow> error + pydict option" where
  "append_no_ans_rows [] app = Inr app"
| "append_no_ans_rows (row # rows) app =
     ebind (questions_append app (no_ans_entry row)) (append_no_ans_rows rows)"

text \<open>Lines 183 to 199: the code after the two traversals have been read.\<close>

definition reconcile :: "ans_row list \<Rightarrow> no_ans_row list \<Rightarrow> error + Application" where
  "reconcile ans_rows no_ans_rows =
     (let app = pick_no_ans no_ans_rows (pick_ans ans_rows None) in
      ebind (append_ans_rows ans_rows app) (\<lambda>app.
      ebind (append_no_ans_rows no_ans_rows app) (\<lambda>app.
        case app of
          None \<Rightarrow> Inl (UnboundLocalError ''app'')
        | Some d \<Rightarrow> Application_marshal (VDict d))))"

text \<open>The whole operation. The store is outside the repository: what the session answers
  to the two traversal queries for an application uuid is a parameter.\<close>

definition getApplicationWithQuestion ::
  "(string \<Rightarrow> ans_row list) \<Rightarrow> (string \<Rightarrow> no_ans_row list) \<Rightarrow> string \<Rightarrow> error + Application" where
  "getApplicationWithQuestion ans_query no_ans_query applicationUuid =
     reconcile (ans_query applicationUuid) (no_ans_query applicationUuid)"

section \<open>The store: a property graph and the Cypher statements run on it\<close>

text \<open>
  The two operations below send Cypher text to the graph database. The database is
  modelled as a property graph: nodes with an identity, labels and a property map, and
  directed relationships with an identity, a type, their two end nodes and a property map.
  \<open>uuids_drawn\<close> counts the calls of \<^verbatim>\<open>apoc.create.uuid()\<close> made so far; the uuids
  themselves come from a generator \<open>uuid_gen\<close> that the operations take as a parameter,
  as they take the value \<open>now\<close> that \<^verbatim>\<open>timestamp()\<close> has during one query.
\<close>

record node =
  nid :: nat
  labels :: "string list"
  props :: pydict

record rel =
  rid :: nat
  rtype :: string
  src :: nat
  dst :: nat
  rprops :: pydict

record graph =
  nodes :: "node list"
  rels :: "rel list"
  uuids_drawn :: nat

text \<open>Cypher's \<^verbatim>\<open>m.k\<close> is \<open>null\<close> for an absent key; a property map in a pattern,
  \<^verbatim>\<open>{k: v}\<close>, holds of an entity whose property \<open>k\<close> equals \<open>v\<close>, and never when \<open>v\<close> is
  \<open>null\<close>; \<^verbatim>\<open>SET e.k = v\<close> removes the property when \<open>v\<close> is \<open>null\<close>.\<close>

definition cy_prop :: "pydict \<Rightarrow> string \<Rightarrow> pyval" where
  "cy_prop m k = (case map_of m k of None \<Rightarrow> VNone | Some v \<Rightarrow> v)"

definition prop_matches :: "pydict \<Rightarrow> string \<Rightarrow> pyval \<Rightarrow> bool" where
  "prop_matches ps k v \<longleftrightarrow> v \<noteq> VNone \<and> map_of ps k = Some v"

definition cy_set :: "string \<Rightarrow> pyval \<Rightarrow> pydict \<Rightarrow> pydict" where
  "cy_set k v ps = (if v = VNone then AList.delete k ps else AList.update k v ps)"

subsection \<open>\<^verbatim>\<open>Query.applications\<close>\<close>




subsection \<open>\<^verbatim>\<open>Mutation.saveAnswers\<close>\<close>

record SaveAnswerInput =
  sa_answer :: string
  sa_questionUuid :: string
  sa_type :: AnswerType

record SaveAnswersInput =
  sai_applicationUuid :: string
  sai_answers :: "SaveAnswerInput list"

definition to_dict :: "SaveAnswerInput \<Rightarrow> pydict" where
  "to_dict a =
     [(''answer'', VStr (sa_answer a)),
      (''type'', VStr (AnswerType_value (sa_type a))),
      (''questionUuid'', VStr (sa_questionUuid a))]"

definition serialize :: "SaveAnswersInput \<Rightarrow> pydict list" where
  "serialize d = map to_dict (sai_answers d)"

text \<open>
  The application uuid is spliced into the query text between single quotes
  (\<^verbatim>\<open>'{applicationUuid}'\<close>). The model reads that literal as the uuid itself, which is
  what Cypher does when the uuid contains neither a single quote nor a backslash; what
  \<^verbatim>\<open>saveAnswers\<close> does to the store is stated below for such uuids.
\<close>

definition splice_ok :: "string \<Rightarrow> bool" where
  "splice_ok s \<longleftrightarrow> CHR 0x27 \<notin> set s \<and> CHR 0x5C \<notin> set s"

text \<open>\<^verbatim>\<open>MATCH (q:Question {uuid: answer.questionUuid})\<close>.\<close>

definition match_question :: "graph \<Rightarrow> pydict \<Rightarrow> node list" where
  "match_question g answer =
     filter (\<lambda>n. ''Question'' \<in> set (labels n) \<and>
                 prop_matches (props n) ''uuid'' (cy_prop answer ''questionUuid''))
       (nodes g)"

text \<open>The matches of the \<^verbatim>\<open>MERGE\<close> pattern
  \<^verbatim>\<open>(q)-[r:HAS_ANSWER {has_application_uuid: '...'}]->(a:Answer)\<close> for a bound \<open>q\<close>.\<close>

definition merge_matches :: "graph \<Rightarrow> string \<Rightarrow> nat \<Rightarrow> (rel \<times> node) list" where
  "merge_matches g app qid =
     concat (map (\<lambda>r. map (\<lambda>a. (r, a))
                   (filter (\<lambda>a. nid a = dst r \<and> ''Answer'' \<in> set (labels a)) (nodes g)))
       (filter (\<lambda>r. rtype r = ''HAS_ANSWER'' \<and> src r = qid \<and>
                    prop_matches (rprops r) ''has_application_uuid'' (VStr app))
          (rels g)))"

text \<open>\<^verbatim>\<open>ON MATCH SET\<close>: the four assignments, in the order written, on the matched
  relationship and its Answer node.\<close>

definition on_match_node :: "int \<Rightarrow> pydict \<Rightarrow> pydict \<Rightarrow> pydict" where
  "on_match_node now answer ps =
     cy_set ''updated_at'' (VDateTime now)
       (cy_set ''answer'' (cy_prop answer ''answer'')
         (cy_set ''type'' (cy_prop answer ''type'') ps))"

definition on_match_rel :: "int \<Rightarrow> pydict \<Rightarrow> pydict" where
  "on_match_rel now ps = cy_set ''updated_at'' (VDateTime now) ps"

definition on_match :: "int \<Rightarrow> pydict \<Rightarrow> rel \<times> node \<Rightarrow> graph \<Rightarrow> graph" where
  "on_match now answer m g =
     g\<lparr>nodes := map (\<lambda>n. if nid n = nid (snd m)
                          then n\<lparr>props := on_match_node now answer (props n)\<rparr> else n) (nodes g),
       rels := map (\<lambda>r. if rid r = rid (fst m)
                         then r\<lparr>rprops := on_match_rel now (rprops r)\<rparr> else r) (rels g)\<rparr>"

text \<open>Identities no node and no relationship of the graph uses.\<close>

definition fresh_nid :: "graph \<Rightarrow> nat" where
  "fresh_nid g = Suc (fold max (map nid (nodes g) @ map src (rels g) @ map dst (rels g)) 0)"

definition fresh_rid :: "graph \<Rightarrow> nat" where
  "fresh_rid g = Suc (fold max (map rid (rels g)) 0)"

text \<open>The pattern did not match: \<^verbatim>\<open>MERGE\<close> creates the relationship with the property of
  the pattern and a new node labelled \<^verbatim>\<open>Answer\<close>; \<^verbatim>\<open>ON CREATE SET\<close> then makes its nine
  assignments in the order written, drawing one uuid for the node and one for the
  relationship.\<close>

definition on_create_node :: "string \<Rightarrow> int \<Rightarrow> pydict \<Rightarrow> pydict" where
  "on_create_node u now answer =
     cy_set ''updated_at'' (VDateTime now)
       (cy_set ''created_at'' (VDateTime now)
         (cy_set ''answer'' (cy_prop answer ''answer'')
           (cy_set ''type'' (cy_prop answer ''type'')
             (cy_set ''uuid'' (VStr u) []))))"

definition on_create_rel :: "string \<Rightarrow> string \<Rightarrow> int \<Rightarrow> pydict" where
  "on_create_rel app u now =
     cy_set ''updated_at'' (VDateTime now)
       (cy_set ''created_at'' (VDateTime now)
         (cy_set ''has_application_uuid'' (VStr app)
           (cy_set ''uuid'' (VStr u) [(''has_application_uuid'', VStr app)])))"

definition on_create :: "string \<Rightarrow> (nat \<Rightarrow> string) \<Rightarrow> int \<Rightarrow> pydict \<Rightarrow> nat \<Rightarrow> graph \<Rightarrow> graph" where
  "on_create app uuid_gen now answer qid g =
     (let a = \<lparr>nid = fresh_nid g, labels = [''Answer''],
                props = on_create_node (uuid_gen (uuids_drawn g)) now answer\<rparr>;
          r = \<lparr>rid = fresh_rid g, rtype = ''HAS_ANSWER'', src = qid, dst = fresh_nid g,
                rprops = on_create_rel app (uuid_gen (Suc (uuids_drawn g))) now\<rparr>
      in g\<lparr>nodes := nodes g @ [a], rels := rels g @ [r],
            uuids_drawn := Suc (Suc (uuids_drawn g))\<rparr>)"

text \<open>\<^verbatim>\<open>MERGE ... ON CREATE SET ... ON MATCH SET ...\<close> for one question.\<close>

definition merge_answer :: "string \<Rightarrow> (nat \<Rightarrow> string) \<Rightarrow> int \<Rightarrow> pydict \<Rightarrow> nat \<Rightarrow> graph \<Rightarrow> graph" where
  "merge_answer app uuid_gen now answer qid g =
     (case merge_matches g app qid of
        [] \<Rightarrow> on_create app uuid_gen now answer qid g
      | ms \<Rightarrow> fold (on_match now answer) ms g)"

text \<open>One element of \<^verbatim>\<open>UNWIND $answers as answer\<close>: every Question node the \<^verbatim>\<open>MATCH\<close>
  finds is merged; when it finds none the row ends there.\<close>

definition save_one :: "string \<Rightarrow> (nat \<Rightarrow> string) \<Rightarrow> int \<Rightarrow> pydict \<Rightarrow> graph \<Rightarrow> graph" where
  "save_one app uuid_gen now answer g =
     fold (\<lambda>q. merge_answer app uuid_gen now answer (nid q)) (match_question g answer) g"

definition run_save_query :: "string \<Rightarrow> (nat \<Rightarrow> string) \<Rightarrow> int \<Rightarrow> pydict list \<Rightarrow> graph \<Rightarrow> graph" where
  "run_save_query app uuid_gen now answers g = fold (save_one app uuid_gen now) answers g"

text \<open>\<^verbatim>\<open>saveAnswers\<close>: the result of the query is not read, and the mutation returns
  \<open>None\<close>.\<close>

definition saveAnswers ::
  "(nat \<Rightarrow> string) \<Rightarrow> int \<Rightarrow> SaveAnswersInput \<Rightarrow> graph \<Rightarrow> Question option \<times> graph" where
  "saveAnswers uuid_gen now data g =
     (None, run_save_query (sai_applicationUuid data) uuid_gen now (serialize data) g)"

section \<open>Vocabulary of the properties\<close>

text \<open>The keys each \<^verbatim>\<open>marshal\<close> reads with \<^verbatim>\<open>[...]\<close> (lines 46 to 50, 93 to 97 and 119
  to 123), and what it means for a property map to have all of a list of keys.\<close>

definition has_keys :: "string list \<Rightarrow> pydict \<Rightarrow> bool" where
  "has_keys ks d = list_all (\<lambda>k. map_of d k \<noteq> None) ks"

definition answer_keys :: "string list" where
  "answer_keys = [''uuid'', ''answer'', ''type'', ''created_at'', ''updated_at'']"

definition question_keys :: "string list" where
  "question_keys = [''uuid'', ''section_uuid'', ''order'', ''type'', ''question_string'']"

definition application_keys :: "string list" where
  "application_keys = [''uuid'', ''name'', ''version'', ''created_at'', ''updated_at'']"

text \<open>The header fields of an \<open>Application\<close> are the values a property map holds.\<close>

definition header_from :: "pydict \<Rightarrow> Application \<Rightarrow> bool" where
  "header_from d A \<longleftrightarrow>
     map_of d ''uuid'' = Some (app_uuid A) \<and> map_of d ''name'' = Some (app_name A) \<and>
     map_of d ''version'' = Some (app_version A) \<and>
     map_of d ''created_at'' = Some (app_createdAt A) \<and>
     map_of d ''updated_at'' = Some (app_updatedAt A)"

text \<open>Rows whose property maps have every key the marshalling reads.\<close>

definition complete_ans_row :: "ans_row \<Rightarrow> bool" where
  "complete_ans_row r \<longleftrightarrow>
     has_keys application_keys (ar_app r) \<and> has_keys question_keys (ar_q r) \<and>
     has_keys answer_keys (ar_ans r)"

definition complete_no_ans_row :: "no_ans_row \<Rightarrow> bool" where
  "complete_no_ans_row r \<longleftrightarrow>
     has_keys application_keys (nr_app r) \<and> has_keys question_keys (nr_q r)"

text \<open>What the \<^verbatim>\<open>MATCH\<close> of \<^verbatim>\<open>saveAnswers\<close> can see of the Question nodes: the identity
  and the \<open>uuid\<close> property of each.\<close>

definition qkey :: "graph \<Rightarrow> (nat \<times> pyval option) list" where
  "qkey g = map (\<lambda>n. (nid n, map_of (props n) ''uuid''))
     (filter (\<lambda>n. ''Question'' \<in> set (labels n)) (nodes g))"

text \<open>The answer-relationships of the store keyed by a question uuid and an application
  uuid, each with the Answer node it leads to.\<close>

definition answer_relationships :: "graph \<Rightarrow> string \<Rightarrow> string \<Rightarrow> (rel \<times> node) list" where
  "answer_relationships g questionUuid app =
     concat (map (\<lambda>q. merge_matches g app (nid q))
       (match_question g [(''questionUuid'', VStr questionUuid)]))"

section \<open>Example data\<close>

definition example_app :: "string \<Rightarrow> pydict" where
  "example_app name =
     [(''uuid'', VStr ''A1''), (''name'', VStr name), (''version'', VStr ''1''),
      (''created_at'', VDateTime 1000), (''updated_at'', VDateTime 1000)]"

definition example_question :: "string \<Rightarrow> int \<Rightarrow> pydict" where
  "example_question u n =
     [(''uuid'', VStr u), (''section_uuid'', VStr ''S1''), (''order'', VInt n),
      (''type'', VStr ''String''), (''question_string'', VStr ''Capital?'')]"

definition example_answer :: pydict where
  "example_answer =
     [(''uuid'', VStr ''N1''), (''answer'', VStr ''Paris''), (''type'', VStr ''String''),
      (''created_at'', VDateTime 2000), (''updated_at'', VDateTime 2000)]"

definition example_rel :: pydict where
  "example_rel =
     [(''uuid'', VStr ''R1''), (''has_application_uuid'', VStr ''A1''),
      (''created_at'', VDateTime 2000), (''updated_at'', VDateTime 2000)]"

text \<open>Scenario A of the specification: application \<open>A1\<close>, question \<open>Q1\<close> (display order 2)
  answered "Paris", question \<open>Q2\<close> (display order 1) unanswered. No other application
  uuid has rows.\<close>

definition scenarioA_ans :: "string \<Rightarrow> ans_row list" where
  "scenarioA_ans u =
     (if u = ''A1''
      then [\<lparr>ar_app = example_app ''Home'', ar_q = example_question ''Q1'' 2,
              ar_qa = example_rel, ar_ans = example_answer\<rparr>]
      else [])"

definition scenarioA_no_ans :: "string \<Rightarrow> no_ans_row list" where
  "scenarioA_no_ans u =
     (if u = ''A1''
      then [\<lparr>nr_app = example_app ''Home'', nr_q = example_question ''Q2'' 1\<rparr>]
      else [])"

definition example_Answer :: Answer where
  "example_Answer =
     \<lparr>ans_uuid = VStr ''N1'', ans_answer = VStr ''Paris'', ans_type = VStr ''String'',
      ans_createdAt = VDateTime 2000, ans_updatedAt = VDateTime 2000\<rparr>"

definition example_Question :: "string \<Rightarrow> int \<Rightarrow> Answer option \<Rightarrow> Question" where
  "example_Question u n a =
     \<lparr>q_uuid = VStr u, q_sectionUuid = VStr ''S1'', q_order = VInt n, q_type = VStr ''String'',
      q_questionString = VStr ''Capital?'', q_answer = a\<rparr>"

definition example_Application :: "string \<Rightarrow> Question list \<Rightarrow> Application" where
  "example_Application name qs =
     \<lparr>app_uuid = VStr ''A1'', app_name = VStr name, app_version = VStr ''1'',
      app_createdAt = VDateTime 1000, app_updatedAt = VDateTime 1000, app_questions = qs\<rparr>"

text \<open>Rows in which question \<open>Q1\<close> is in both traversals, and in which the two traversals
  carry different projections of the application.\<close>

definition overlap_no_ans :: "string \<Rightarrow> no_ans_row list" where
  "overlap_no_ans u =
     (if u = ''A1''
      then [\<lparr>nr_app = example_app ''Home'', nr_q = example_question ''Q1'' 2\<rparr>]
      else [])"

definition renamed_no_ans :: "string \<Rightarrow> no_ans_row list" where
  "renamed_no_ans u =
     (if u = ''A1''
      then [\<lparr>nr_app = example_app ''Renamed'', nr_q = example_question ''Q2'' 1\<rparr>]
      else [])"

text \<open>A store with application \<open>A1\<close> and its question \<open>Q2\<close>, a uuid generator, and
  batches for question \<open>Q2\<close> and for a question \<open>Q99\<close> that the store does not have.\<close>

definition example_graph :: graph where
  "example_graph =
     \<lparr>nodes = [\<lparr>nid = 1, labels = [''Application''], props = example_app ''Home''\<rparr>,
               \<lparr>nid = 2, labels = [''Question''], props = example_question ''Q2'' 1\<rparr>],
      rels = [\<lparr>rid = 1, rtype = ''HAS_QUESTION'', src = 1, dst = 2, rprops = []\<rparr>],
      uuids_drawn = 0\<rparr>"

definition example_uuid_gen :: "nat \<Rightarrow> string" where
  "example_uuid_gen n = CHR ''U'' # replicate n (CHR ''+'')"

definition example_save :: "string \<Rightarrow> string \<Rightarrow> SaveAnswerInput" where
  "example_save q a = \<lparr>sa_answer = a, sa_questionUuid = q, sa_type = AT_int\<rparr>"

definition example_batch :: "SaveAnswerInput list \<Rightarrow> SaveAnswersInput" where
  "example_batch as = \<lparr>sai_applicationUuid = ''A1'', sai_answers = as\<rparr>"

text \<open>The store after \<open>Q2\<close> has been answered for \<open>A1\<close> at time \<open>t\<close> and answered again at
  time \<open>t'\<close>.\<close>

definition example_saved :: "string \<Rightarrow> int \<Rightarrow> int \<Rightarrow> graph" where
  "example_saved a t t' =
     \<lparr>nodes = [\<lparr>nid = 1, labels = [''Application''], props = example_app ''Home''\<rparr>,
               \<lparr>nid = 2, labels = [''Question''], props = example_question ''Q2'' 1\<rparr>,
               \<lparr>nid = 3, labels = [''Answer''],
                 props = [(''uuid'', VStr ''U''), (''type'', VStr ''Int''), (''answer'', VStr a),
                          (''created_at'', VDateTime t), (''updated_at'', VDateTime t')]\<rparr>],
      rels = [\<lparr>rid = 1, rtype = ''HAS_QUESTION'', src = 1, dst = 2, rprops = []\<rparr>,
              \<lparr>rid = 2, rtype = ''HAS_ANSWER'', src = 2, dst = 3,
                rprops = [(''has_application_uuid'', VStr ''A1''), (''uuid'', VStr ''U+''),
                          (''created_at'', VDateTime t), (''updated_at'', VDateTime t')]\<rparr>],
      uuids_drawn = 2\<rparr>"


section \<open>Lemmas on the error monad and the mapper\<close>


lemma ebind_Inr_iff: "ebind m f = Inr y \<longleftrightarrow> (\<exists>x. m = Inr x \<and> f x = Inr y)"
  by (cases m) (simp_all add: ebind_def)

lemma ebind_simps [simp]: "ebind (Inr x) f = f x" "ebind (Inl e) f = Inl e"
  by (simp_all add: ebind_def)

lemma emap_Inr_iff: "emap f xs = Inr ys \<longleftrightarrow> map f xs = map Inr ys"
proof (induction xs arbitrary: ys)
  case Nil
  then show ?case by auto
next
  case (Cons x xs)
  show ?case
  proof (cases "f x")
    case (Inl e)
    then show ?thesis by (cases ys) auto
  next
    case (Inr y)
    show ?thesis
    proof (cases "emap f xs")
      case (Inl e)
      with Inr Cons.IH show ?thesis by (cases ys) auto
    next
      case r: (Inr zs)
      with Inr Cons.IH [of zs] show ?thesis by (cases ys) auto
    qed
  qed
qed

lemma append_ans_rows_Some:
  "map_of d ''questions'' = Some (VList qs) \<Longrightarrow>
   append_ans_rows rows (Some d) =
     Inr (Some (AList.update ''questions'' (VList (qs @ map ans_entry rows)) d))"
proof (induction rows arbitrary: d qs)
  case Nil
  then show ?case by (simp add: update_triv)
next
  case (Cons row rows)
  then show ?case
    by (simp add: questions_append_def update_conv')
qed

lemma append_no_ans_rows_Some:
  "map_of d ''questions'' = Some (VList qs) \<Longrightarrow>
   append_no_ans_rows rows (Some d) =
     Inr (Some (AList.update ''questions'' (VList (qs @ map no_ans_entry rows)) d))"
proof (induction rows arbitrary: d qs)
  case Nil
  then show ?case by (simp add: update_triv)
next
  case (Cons row rows)
  then show ?case
    by (simp add: questions_append_def update_conv')
qed

lemma marshal_entry_ans:
  "marshal_entry (ans_entry r) = Question_marshal (VDict (ar_q r)) (VDict (ar_ans r))"
  by (simp add: marshal_entry_def ans_entry_def)

lemma marshal_entry_no_ans:
  "marshal_entry (no_ans_entry r) = Question_marshal (VDict (nr_q r)) VNone"
  by (simp add: marshal_entry_def no_ans_entry_def)


lemma getitem_update_other:
  "k \<noteq> k' \<Longrightarrow> getitem (VDict (AList.update k' v d)) k = getitem (VDict d) k"
  by (simp add: update_conv')

lemma Application_marshal_questions:
  "Application_marshal (VDict (AList.update ''questions'' (VList es) d)) =
     ebind (getitem (VDict d) ''uuid'') (\<lambda>u.
     ebind (getitem (VDict d) ''name'') (\<lambda>n.
     ebind (getitem (VDict d) ''version'') (\<lambda>v.
     ebind (getitem (VDict d) ''created_at'') (\<lambda>c.
     ebind (getitem (VDict d) ''updated_at'') (\<lambda>m.
     ebind (emap marshal_entry es) (\<lambda>qs.
       Inr \<lparr>app_uuid = u, app_name = n, app_version = v,
            app_createdAt = c, app_updatedAt = m, app_questions = qs\<rparr>))))))"
  by (cases "es = []") (simp_all add: Application_marshal_def update_conv' getitem_update_other)

lemma pick_questions:
  "pick_no_ans no (pick_ans ans None) = Some d \<Longrightarrow>
   \<exists>base. d = AList.update ''questions'' (VList []) base \<and>
     (case no of [] \<Rightarrow> (case ans of [] \<Rightarrow> False | a # _ \<Rightarrow> base = ar_app a)
      | n # _ \<Rightarrow> base = nr_app n)"
  by (auto simp: pick_no_ans_def pick_ans_def split: list.splits)

lemma reconcile_eq:
  "reconcile ans no =
     (case pick_no_ans no (pick_ans ans None) of
        None \<Rightarrow> Inl (UnboundLocalError ''app'')
      | Some d \<Rightarrow> Application_marshal (VDict
          (AList.update ''questions'' (VList (map ans_entry ans @ map no_ans_entry no)) d)))"
proof (cases "pick_no_ans no (pick_ans ans None)")
  case None
  then have "ans = []" "no = []"
    by (auto simp: pick_no_ans_def pick_ans_def split: list.splits)
  then show ?thesis by (simp add: reconcile_def pick_no_ans_def pick_ans_def)
next
  case (Some d)
  from pick_questions [OF Some] obtain base where d: "d = AList.update ''questions'' (VList []) base"
    by blast
  then have q: "map_of d ''questions'' = Some (VList [])" by (simp add: update_conv')
  show ?thesis
    using Some q
    by (simp add: reconcile_def append_ans_rows_Some append_no_ans_rows_Some update_conv')
qed


lemma getitem_Inr_iff: "getitem (VDict d) k = Inr v \<longleftrightarrow> map_of d k = Some v"
  by (simp split: option.splits)

lemma getitem_cases:
  "(map_of d k = None \<and> getitem (VDict d) k = Inl (KeyError k)) \<or>
   (\<exists>v. map_of d k = Some v \<and> getitem (VDict d) k = Inr v)"
  by (cases "map_of d k") simp_all

lemma Answer_marshal_Inr_D:
  assumes "Answer_marshal (VDict d) = Inr R"
  shows "map_of d ''uuid'' = Some (ans_uuid R)" "map_of d ''answer'' = Some (ans_answer R)"
    "map_of d ''type'' = Some (ans_type R)" "map_of d ''created_at'' = Some (ans_createdAt R)"
    "map_of d ''updated_at'' = Some (ans_updatedAt R)"
  using assms unfolding Answer_marshal_def ebind_Inr_iff getitem_Inr_iff by auto

lemma Answer_marshal_total:
  assumes "has_keys answer_keys d"
  shows "\<exists>R. Answer_marshal (VDict d) = Inr R"
  using assms by (auto simp: has_keys_def answer_keys_def Answer_marshal_def)

lemma Answer_marshal_missing:
  assumes "\<not> has_keys answer_keys d"
  shows "\<exists>k. k \<in> set answer_keys \<and> map_of d k = None \<and> Answer_marshal (VDict d) = Inl (KeyError k)"
  using assms getitem_cases [of d "''uuid''"] getitem_cases [of d "''answer''"]
    getitem_cases [of d "''type''"] getitem_cases [of d "''created_at''"]
    getitem_cases [of d "''updated_at''"]
  unfolding has_keys_def answer_keys_def Answer_marshal_def
  by (elim disjE conjE exE) simp_all


lemma Question_marshal_Inr_D:
  assumes "Question_marshal (VDict q) a = Inr Q"
  shows "map_of q ''uuid'' = Some (q_uuid Q)" "map_of q ''section_uuid'' = Some (q_sectionUuid Q)"
    "map_of q ''order'' = Some (q_order Q)" "map_of q ''type'' = Some (q_type Q)"
    "map_of q ''question_string'' = Some (q_questionString Q)"
    "map_option Inr (q_answer Q) = (if a = VNone then None else Some (Answer_marshal a))"
  using assms unfolding Question_marshal_def ebind_Inr_iff getitem_Inr_iff
  by (auto simp: ebind_Inr_iff split: if_splits)

lemma Question_marshal_total:
  assumes "has_keys question_keys q" and "a = VNone \<or> (\<exists>d. a = VDict d \<and> has_keys answer_keys d)"
  shows "\<exists>Q. Question_marshal (VDict q) a = Inr Q"
proof -
  have "\<exists>x. (if a = VNone then Inr None
            else ebind (Answer_marshal a) (\<lambda>a. Inr (Some a))) = (Inr x :: error + Answer option)"
  proof (cases "a = VNone")
    case True
    then show ?thesis by simp
  next
    case False
    with assms(2) obtain d where "a = VDict d" "has_keys answer_keys d" by blast
    with Answer_marshal_total [of d] show ?thesis by auto
  qed
  then show ?thesis
    using assms(1) by (auto simp: has_keys_def question_keys_def Question_marshal_def)
qed

lemma Question_marshal_missing:
  assumes "\<not> has_keys question_keys q"
    and "a = VNone \<or> (\<exists>d. a = VDict d)"
  shows "\<exists>k. Question_marshal (VDict q) a = Inl (KeyError k)"
proof -
  have q: "\<exists>k. ebind (getitem (VDict q) ''uuid'') (\<lambda>u.
     ebind (getitem (VDict q) ''section_uuid'') (\<lambda>s.
     ebind (getitem (VDict q) ''order'') (\<lambda>ord.
     ebind (getitem (VDict q) ''type'') (\<lambda>t.
     ebind (getitem (VDict q) ''question_string'') (\<lambda>qs.
       Inr \<lparr>q_uuid = u, q_sectionUuid = s, q_order = ord, q_type = t,
            q_questionString = qs, q_answer = x\<rparr>))))) = Inl (KeyError k)" for x
    using assms(1) getitem_cases [of q "''uuid''"] getitem_cases [of q "''section_uuid''"]
      getitem_cases [of q "''order''"] getitem_cases [of q "''type''"]
      getitem_cases [of q "''question_string''"]
    unfolding has_keys_def question_keys_def
    by (elim disjE conjE exE) simp_all
  show ?thesis
  proof (cases "a = VNone")
    case True
    then show ?thesis using q [of None] by (simp add: Question_marshal_def)
  next
    case False
    with assms(2) obtain d where d: "a = VDict d" by blast
    show ?thesis
    proof (cases "has_keys answer_keys d")
      case True
      from Answer_marshal_total [OF True] obtain R where "Answer_marshal (VDict d) = Inr R" ..
      then show ?thesis using q [of "Some R"] d by (simp add: Question_marshal_def)
    next
      case f: False
      from Answer_marshal_missing [OF f] obtain k where "Answer_marshal (VDict d) = Inl (KeyError k)"
        by blast
      then show ?thesis using d by (simp add: Question_marshal_def)
    qed
  qed
qed

lemma Question_marshal_answer_missing:
  assumes "\<not> has_keys answer_keys d"
  shows "\<exists>k. Question_marshal (VDict q) (VDict d) = Inl (KeyError k)"
proof -
  from Answer_marshal_missing [OF assms] obtain k where "Answer_marshal (VDict d) = Inl (KeyError k)"
    by blast
  then show ?thesis by (simp add: Question_marshal_def)
qed

lemma Application_marshal_missing:
  assumes "\<not> has_keys application_keys d"
  shows "\<exists>k. k \<in> set application_keys \<and> map_of d k = None \<and>
    Application_marshal (VDict d) = Inl (KeyError k)"
  using assms getitem_cases [of d "''uuid''"] getitem_cases [of d "''name''"]
    getitem_cases [of d "''version''"] getitem_cases [of d "''created_at''"]
    getitem_cases [of d "''updated_at''"]
  unfolding has_keys_def application_keys_def Application_marshal_def
  by (elim disjE conjE exE) (simp_all add: Let_def)


lemma Application_marshal_questions_Inr_D:
  assumes "Application_marshal (VDict (AList.update ''questions'' (VList es) d)) = Inr A"
  shows "header_from d A" and "emap marshal_entry es = Inr (app_questions A)"
  using assms unfolding Application_marshal_questions ebind_Inr_iff getitem_Inr_iff header_from_def
  by auto

lemma reconcile_Inr_D:
  assumes "reconcile ans no = Inr A"
  shows "\<exists>base. (case no of [] \<Rightarrow> (case ans of [] \<Rightarrow> False | a # _ \<Rightarrow> base = ar_app a)
                  | n # _ \<Rightarrow> base = nr_app n) \<and> header_from base A"
    and "emap marshal_entry (map ans_entry ans @ map no_ans_entry no) = Inr (app_questions A)"
proof -
  from assms obtain d where d: "pick_no_ans no (pick_ans ans None) = Some d"
    by (cases "pick_no_ans no (pick_ans ans None)") (simp_all add: reconcile_eq)
  from pick_questions [OF d] obtain base where
    base: "d = AList.update ''questions'' (VList []) base"
      "(case no of [] \<Rightarrow> (case ans of [] \<Rightarrow> False | a # _ \<Rightarrow> base = ar_app a)
        | n # _ \<Rightarrow> base = nr_app n)"
    by blast
  from assms d base(1) have m: "Application_marshal (VDict (AList.update ''questions''
      (VList (map ans_entry ans @ map no_ans_entry no)) base)) = Inr A"
    by (simp add: reconcile_eq)
  from Application_marshal_questions_Inr_D(1) [OF m] base(2)
  show "\<exists>base. (case no of [] \<Rightarrow> (case ans of [] \<Rightarrow> False | a # _ \<Rightarrow> base = ar_app a)
                  | n # _ \<Rightarrow> base = nr_app n) \<and> header_from base A"
    by blast
  from Application_marshal_questions_Inr_D(2) [OF m]
  show "emap marshal_entry (map ans_entry ans @ map no_ans_entry no) = Inr (app_questions A)" .
qed

lemma reconcile_questions:
  assumes "reconcile ans no = Inr A"
  shows "map Inr (app_questions A) =
     map (\<lambda>r. Question_marshal (VDict (ar_q r)) (VDict (ar_ans r))) ans @
     map (\<lambda>r. Question_marshal (VDict (nr_q r)) VNone) no"
  using reconcile_Inr_D(2) [OF assms]
  by (simp add: emap_Inr_iff marshal_entry_ans marshal_entry_no_ans comp_def)

lemma reconcile_split:
  assumes "reconcile ans no = Inr A"
  shows "\<exists>qa qn. app_questions A = qa @ qn \<and>
     map Inr qa = map (\<lambda>r. Question_marshal (VDict (ar_q r)) (VDict (ar_ans r))) ans \<and>
     map Inr qn = map (\<lambda>r. Question_marshal (VDict (nr_q r)) VNone) no"
proof -
  let ?qa = "take (length ans) (app_questions A)"
  let ?qn = "drop (length ans) (app_questions A)"
  from reconcile_questions [OF assms]
  have e: "map Inr (app_questions A) =
     map (\<lambda>r. Question_marshal (VDict (ar_q r)) (VDict (ar_ans r))) ans @
     map (\<lambda>r. Question_marshal (VDict (nr_q r)) VNone) no" .
  have "map Inr ?qa = take (length ans) (map Inr (app_questions A) :: (error + Question) list)"
    by (simp add: take_map)
  also have "\<dots> = map (\<lambda>r. Question_marshal (VDict (ar_q r)) (VDict (ar_ans r))) ans"
    by (simp add: e)
  finally have a: "map Inr ?qa = map (\<lambda>r. Question_marshal (VDict (ar_q r)) (VDict (ar_ans r))) ans" .
  have "map Inr ?qn = drop (length ans) (map Inr (app_questions A) :: (error + Question) list)"
    by (simp add: drop_map)
  also have "\<dots> = map (\<lambda>r. Question_marshal (VDict (nr_q r)) VNone) no"
    by (simp add: e)
  finally have n: "map Inr ?qn = map (\<lambda>r. Question_marshal (VDict (nr_q r)) VNone) no" .
  from a n show ?thesis by (intro exI [of _ ?qa] exI [of _ ?qn]) simp
qed

lemma marshalled_uuids_ans:
  "map Inr qs = map (\<lambda>r. Question_marshal (VDict (ar_q r)) (VDict (ar_ans r))) rows \<Longrightarrow>
   map (\<lambda>Q. Some (q_uuid Q)) qs = map (\<lambda>r. map_of (ar_q r) ''uuid'') rows"
proof (induction rows arbitrary: qs)
  case Nil
  then show ?case by simp
next
  case (Cons r rows)
  then obtain Q qs' where qs: "qs = Q # qs'" by (cases qs) auto
  with Cons.prems have "Question_marshal (VDict (ar_q r)) (VDict (ar_ans r)) = Inr Q"
    and "map Inr qs' = map (\<lambda>r. Question_marshal (VDict (ar_q r)) (VDict (ar_ans r))) rows"
    by simp_all
  with Cons.IH [of qs'] Question_marshal_Inr_D(1) qs show ?case by simp
qed

lemma marshalled_uuids_no_ans:
  "map Inr qs = map (\<lambda>r. Question_marshal (VDict (nr_q r)) VNone) rows \<Longrightarrow>
   map (\<lambda>Q. Some (q_uuid Q)) qs = map (\<lambda>r. map_of (nr_q r) ''uuid'') rows"
proof (induction rows arbitrary: qs)
  case Nil
  then show ?case by simp
next
  case (Cons r rows)
  then obtain Q qs' where qs: "qs = Q # qs'" by (cases qs) auto
  with Cons.prems have "Question_marshal (VDict (nr_q r)) VNone = Inr Q"
    and "map Inr qs' = map (\<lambda>r. Question_marshal (VDict (nr_q r)) VNone) rows"
    by simp_all
  with Cons.IH [of qs'] Question_marshal_Inr_D(1) qs show ?case by simp
qed

lemma reconcile_uuids:
  assumes "reconcile ans no = Inr A"
  shows "map (\<lambda>Q. Some (q_uuid Q)) (app_questions A) =
     map (\<lambda>r. map_of (ar_q r) ''uuid'') ans @ map (\<lambda>r. map_of (nr_q r) ''uuid'') no"
proof -
  from reconcile_split [OF assms] obtain qa qn where
    "app_questions A = qa @ qn"
    "map Inr qa = map (\<lambda>r. Question_marshal (VDict (ar_q r)) (VDict (ar_ans r))) ans"
    "map Inr qn = map (\<lambda>r. Question_marshal (VDict (nr_q r)) VNone) no"
    by blast
  then show ?thesis
    using marshalled_uuids_ans [of qa ans] marshalled_uuids_no_ans [of qn no] by simp
qed


section \<open>Totality and multiplicity of the reconciliation\<close>

lemma emap_total:
  "(\<And>x. x \<in> set xs \<Longrightarrow> \<exists>y. f x = Inr y) \<Longrightarrow> \<exists>ys. emap f xs = Inr ys"
proof (induction xs)
  case Nil
  then show ?case by simp
next
  case (Cons x xs)
  from Cons.prems [of x] obtain y where y: "f x = Inr y" by auto
  from Cons.IH Cons.prems obtain ys where "emap f xs = Inr ys" by auto
  with y show ?case by simp
qed

lemma has_keys_getitem:
  "has_keys ks d \<Longrightarrow> k \<in> set ks \<Longrightarrow> \<exists>v. getitem (VDict d) k = Inr v"
  by (auto simp: has_keys_def list_all_iff)

lemma Application_marshal_questions_total:
  assumes "has_keys application_keys d" and "\<exists>qs. emap marshal_entry es = Inr qs"
  shows "\<exists>A. Application_marshal (VDict (AList.update ''questions'' (VList es) d)) = Inr A"
proof -
  from assms(1) obtain u n v c m where
    "getitem (VDict d) ''uuid'' = Inr u" "getitem (VDict d) ''name'' = Inr n"
    "getitem (VDict d) ''version'' = Inr v" "getitem (VDict d) ''created_at'' = Inr c"
    "getitem (VDict d) ''updated_at'' = Inr m"
    by (auto simp: has_keys_def application_keys_def)
  with assms(2) show ?thesis
    unfolding Application_marshal_questions by auto
qed

lemma reconcile_total:
  assumes "ans \<noteq> [] \<or> no \<noteq> []"
    and "list_all complete_ans_row ans" and "list_all complete_no_ans_row no"
  shows "\<exists>A. reconcile ans no = Inr A"
proof -
  have entries: "\<exists>qs. emap marshal_entry (map ans_entry ans @ map no_ans_entry no) = Inr qs"
  proof (rule emap_total)
    fix e assume "e \<in> set (map ans_entry ans @ map no_ans_entry no)"
    then consider r where "r \<in> set ans" "e = ans_entry r"
      | r where "r \<in> set no" "e = no_ans_entry r"
      by auto
    then show "\<exists>y. marshal_entry e = Inr y"
    proof cases
      case 1
      with assms(2) have "complete_ans_row r" by (simp add: list_all_iff)
      then show ?thesis
        using 1(2) Question_marshal_total [of "ar_q r" "VDict (ar_ans r)"]
        by (simp add: marshal_entry_ans complete_ans_row_def)
    next
      case 2
      with assms(3) have "complete_no_ans_row r" by (simp add: list_all_iff)
      then show ?thesis
        using 2(2) Question_marshal_total [of "nr_q r" VNone]
        by (simp add: marshal_entry_no_ans complete_no_ans_row_def)
    qed
  qed
  from assms obtain base where
    d: "pick_no_ans no (pick_ans ans None) = Some (AList.update ''questions'' (VList []) base)"
    and base: "has_keys application_keys base"
    by (cases no; cases ans)
      (auto simp: pick_no_ans_def pick_ans_def complete_ans_row_def complete_no_ans_row_def)
  from Application_marshal_questions_total [OF base entries] d
  show ?thesis by (simp add: reconcile_eq)
qed

lemma count_list_Some: "count_list (map Some xs) (Some x) = count_list xs x"
  by (induction xs) simp_all

lemma reconcile_count:
  assumes "reconcile ans no = Inr A"
  shows "count_list (map q_uuid (app_questions A)) x =
     count_list (map (\<lambda>r. map_of (ar_q r) ''uuid'') ans) (Some x) +
     count_list (map (\<lambda>r. map_of (nr_q r) ''uuid'') no) (Some x)"
proof -
  have "count_list (map q_uuid (app_questions A)) x =
      count_list (map Some (map q_uuid (app_questions A))) (Some x)"
    by (simp only: count_list_Some)
  also have "map Some (map q_uuid (app_questions A)) =
      map (\<lambda>r. map_of (ar_q r) ''uuid'') ans @ map (\<lambda>r. map_of (nr_q r) ''uuid'') no"
    using reconcile_uuids [OF assms] by (simp add: comp_def)
  finally show ?thesis by simp
qed

lemma reconcile_length:
  assumes "reconcile ans no = Inr A"
  shows "length (app_questions A) = length ans + length no"
proof -
  have "length (app_questions A) = length (map Inr (app_questions A) :: (error + Question) list)"
    by simp
  also have "\<dots> = length ans + length no"
    by (simp only: reconcile_questions [OF assms] length_append length_map)
  finally show ?thesis .
qed

lemma reconcile_answered_nth:
  assumes "reconcile ans no = Inr A" and "i < length ans"
  shows "Question_marshal (VDict (ar_q (ans ! i))) (VDict (ar_ans (ans ! i))) =
     Inr (app_questions A ! i)"
proof -
  have "i < length (app_questions A)" using assms by (simp add: reconcile_length)
  then have "Inr (app_questions A ! i) = (map Inr (app_questions A) :: (error + Question) list) ! i"
    by simp
  also have "\<dots> = Question_marshal (VDict (ar_q (ans ! i))) (VDict (ar_ans (ans ! i)))"
    using assms(2) by (simp only: reconcile_questions [OF assms(1)]) (simp add: nth_append)
  finally show ?thesis by simp
qed

lemma reconcile_unanswered_nth:
  assumes "reconcile ans no = Inr A" and "j < length no"
  shows "Question_marshal (VDict (nr_q (no ! j))) VNone = Inr (app_questions A ! (length ans + j))"
proof -
  have "length ans + j < length (app_questions A)" using assms by (simp add: reconcile_length)
  then have "Inr (app_questions A ! (length ans + j)) =
      (map Inr (app_questions A) :: (error + Question) list) ! (length ans + j)"
    by simp
  also have "\<dots> = Question_marshal (VDict (nr_q (no ! j))) VNone"
    using assms(2) by (simp only: reconcile_questions [OF assms(1)]) (simp add: nth_append)
  finally show ?thesis by simp
qed

lemma reconcile_ignores_answered_app:
  assumes "no \<noteq> []"
  shows "reconcile (map (ar_app_update f) ans) no = reconcile ans no"
proof -
  have "map ans_entry (map (ar_app_update f) ans) = map ans_entry ans"
    by (simp add: ans_entry_def)
  moreover have "pick_no_ans no (pick_ans (map (ar_app_update f) ans) None) =
      pick_no_ans no (pick_ans ans None)"
    using assms by (cases no) (simp_all add: pick_no_ans_def)
  ultimately show ?thesis by (simp only: reconcile_eq)
qed

section \<open>The listing\<close>




section \<open>The upsert: what a save leaves unchanged\<close>

lemma map_of_cy_set:
  "map_of (cy_set k v ps) k' =
     (if k' = k then (if v = VNone then None else Some v) else map_of ps k')"
  by (simp add: cy_set_def update_conv' delete_conv')

lemma fold_max_ge: "(a::nat) \<le> fold max xs a"
  by (induction xs arbitrary: a) (auto intro: order_trans [OF max.cobounded2])

lemma fold_max_mem: "(x::nat) \<in> set xs \<Longrightarrow> x \<le> fold max xs a"
proof (induction xs arbitrary: a)
  case Nil
  then show ?case by simp
next
  case (Cons y ys)
  show ?case
  proof (cases "x = y")
    case True
    have "y \<le> max y a" by simp
    also have "\<dots> \<le> fold max ys (max y a)" by (rule fold_max_ge)
    finally show ?thesis using True by simp
  next
    case False
    with Cons show ?thesis by simp
  qed
qed

lemma fresh_nid_nodes: "n \<in> set (nodes g) \<Longrightarrow> nid n \<noteq> fresh_nid g"
  using fold_max_mem [of "nid n" "map nid (nodes g) @ map src (rels g) @ map dst (rels g)" 0]
  by (auto simp: fresh_nid_def)

lemma fresh_nid_dst: "r \<in> set (rels g) \<Longrightarrow> dst r \<noteq> fresh_nid g"
  using fold_max_mem [of "dst r" "map nid (nodes g) @ map src (rels g) @ map dst (rels g)" 0]
  by (auto simp: fresh_nid_def)

lemma match_question_qkey:
  "map nid (match_question g answer) =
     map fst (filter (\<lambda>p. cy_prop answer ''questionUuid'' \<noteq> VNone \<and>
                  snd p = Some (cy_prop answer ''questionUuid'')) (qkey g))"
proof -
  have "map nid (filter (\<lambda>n. ''Question'' \<in> set (labels n) \<and> v \<noteq> VNone \<and>
            map_of (props n) ''uuid'' = Some v) ns) =
        map fst (filter (\<lambda>p. v \<noteq> VNone \<and> snd p = Some v)
          (map (\<lambda>n. (nid n, map_of (props n) ''uuid''))
            (filter (\<lambda>n. ''Question'' \<in> set (labels n)) ns)))" for v and ns :: "node list"
    by (induction ns) auto
  then show ?thesis by (simp add: match_question_def qkey_def prop_matches_def)
qed

lemma qkey_on_match: "qkey (on_match now answer m g) = qkey g"
proof -
  have "map (\<lambda>n. (nid n, map_of (props n) ''uuid''))
          (filter (\<lambda>n. ''Question'' \<in> set (labels n))
            (map (\<lambda>n. if nid n = i then n\<lparr>props := on_match_node now answer (props n)\<rparr> else n) ns)) =
        map (\<lambda>n. (nid n, map_of (props n) ''uuid''))
          (filter (\<lambda>n. ''Question'' \<in> set (labels n)) ns)" for i and ns :: "node list"
    by (induction ns) (simp_all add: on_match_node_def map_of_cy_set)
  then show ?thesis by (simp add: qkey_def on_match_def)
qed

lemma qkey_on_create: "qkey (on_create app uuid_gen now answer qid g) = qkey g"
  by (simp add: qkey_def on_create_def Let_def)

lemma qkey_fold_on_match: "qkey (fold (on_match now answer) ms g) = qkey g"
  by (induction ms arbitrary: g) (simp_all add: qkey_on_match)

lemma qkey_merge_answer: "qkey (merge_answer app uuid_gen now answer qid g) = qkey g"
  by (cases "merge_matches g app qid")
    (simp_all add: merge_answer_def qkey_on_create qkey_fold_on_match qkey_on_match)

lemma qkey_fold_merge_answer:
  "qkey (fold (\<lambda>q. merge_answer app uuid_gen now answer (nid q)) qs g) = qkey g"
  by (induction qs arbitrary: g) (simp_all add: qkey_merge_answer)

lemma qkey_save_one: "qkey (save_one app uuid_gen now answer g) = qkey g"
  by (simp add: save_one_def qkey_fold_merge_answer)

lemma qkey_run_save_query: "qkey (run_save_query app uuid_gen now answers g) = qkey g"
  unfolding run_save_query_def
  by (induction answers arbitrary: g) (simp_all add: qkey_save_one)

lemma match_question_nids_cong:
  "qkey g' = qkey g \<Longrightarrow> map nid (match_question g' answer) = map nid (match_question g answer)"
  by (simp add: match_question_qkey)

lemma save_one_nids:
  "save_one app uuid_gen now answer g =
     fold (merge_answer app uuid_gen now answer) (map nid (match_question g answer)) g"
  by (simp add: save_one_def fold_map comp_def)

lemma save_one_no_question:
  "match_question g answer = [] \<Longrightarrow> save_one app uuid_gen now answer g = g"
  by (simp add: save_one_def)

lemma run_save_query_append:
  "run_save_query app uuid_gen now (xs @ ys) g =
     run_save_query app uuid_gen now ys (run_save_query app uuid_gen now xs g)"
  by (simp add: run_save_query_def)

lemma run_save_query_skip:
  assumes "match_question g answer = []"
  shows "run_save_query app uuid_gen now (xs @ answer # ys) g =
     run_save_query app uuid_gen now (xs @ ys) g"
proof -
  let ?g1 = "run_save_query app uuid_gen now xs g"
  have "map nid (match_question ?g1 answer) = map nid (match_question g answer)"
    by (rule match_question_nids_cong) (rule qkey_run_save_query)
  with assms have "match_question ?g1 answer = []" by simp
  then have "save_one app uuid_gen now answer ?g1 = ?g1" by (rule save_one_no_question)
  then show ?thesis by (simp add: run_save_query_def)
qed

section \<open>The upsert: what a save creates and what it updates\<close>

lemma merge_matches_map:
  assumes fr: "\<And>r. rtype (fr r) = rtype r \<and> src (fr r) = src r \<and> dst (fr r) = dst r \<and>
      prop_matches (rprops (fr r)) ''has_application_uuid'' (VStr app) =
      prop_matches (rprops r) ''has_application_uuid'' (VStr app)"
    and fa: "\<And>a. nid (fa a) = nid a \<and> labels (fa a) = labels a"
  shows "merge_matches (g\<lparr>nodes := map fa (nodes g), rels := map fr (rels g)\<rparr>) app qid =
     map (\<lambda>m. (fr (fst m), fa (snd m))) (merge_matches g app qid)"
proof -
  have inner: "map (Pair (fr r)) (filter (\<lambda>a. nid a = dst r \<and> ''Answer'' \<in> set (labels a))
        (map fa ns)) =
      map ((\<lambda>m. (fr (fst m), fa (snd m))) \<circ> Pair r)
        (filter (\<lambda>a. nid a = dst r \<and> ''Answer'' \<in> set (labels a)) ns)"
    for r and ns :: "node list"
    by (induction ns) (simp_all add: fa)
  have outer: "concat (map (\<lambda>r. map (\<lambda>a. (r, a))
          (filter (\<lambda>a. nid a = dst r \<and> ''Answer'' \<in> set (labels a)) (map fa ns)))
        (filter (\<lambda>r. rtype r = ''HAS_ANSWER'' \<and> src r = qid \<and>
                    prop_matches (rprops r) ''has_application_uuid'' (VStr app)) (map fr rs))) =
      map (\<lambda>m. (fr (fst m), fa (snd m)))
        (concat (map (\<lambda>r. map (\<lambda>a. (r, a))
            (filter (\<lambda>a. nid a = dst r \<and> ''Answer'' \<in> set (labels a)) ns))
          (filter (\<lambda>r. rtype r = ''HAS_ANSWER'' \<and> src r = qid \<and>
                    prop_matches (rprops r) ''has_application_uuid'' (VStr app)) rs)))"
    for rs :: "rel list" and ns :: "node list"
    by (induction rs) (simp_all add: fr inner)
  show ?thesis by (simp add: merge_matches_def outer)
qed

lemma merge_matches_on_match:
  "merge_matches (on_match now answer m g) app qid =
     map (\<lambda>p. (if rid (fst p) = rid (fst m)
                then (fst p)\<lparr>rprops := on_match_rel now (rprops (fst p))\<rparr> else fst p,
                if nid (snd p) = nid (snd m)
                then (snd p)\<lparr>props := on_match_node now answer (props (snd p))\<rparr> else snd p))
       (merge_matches g app qid)"
  unfolding on_match_def
  by (rule merge_matches_map)
    (simp_all add: on_match_rel_def prop_matches_def map_of_cy_set)

lemma fresh_nid_dst': "r \<in> set (rels g) \<Longrightarrow> fresh_nid g \<noteq> dst r"
  using fresh_nid_dst [of r g] by simp

lemma merge_matches_on_create:
  "merge_matches (on_create app uuid_gen now answer qid g) app' qid' =
     merge_matches g app' qid' @
     (if qid' = qid \<and> app' = app
      then [(\<lparr>rid = fresh_rid g, rtype = ''HAS_ANSWER'', src = qid, dst = fresh_nid g,
               rprops = on_create_rel app (uuid_gen (Suc (uuids_drawn g))) now\<rparr>,
             \<lparr>nid = fresh_nid g, labels = [''Answer''],
               props = on_create_node (uuid_gen (uuids_drawn g)) now answer\<rparr>)]
      else [])"
proof -
  define a where "a = \<lparr>nid = fresh_nid g, labels = [''Answer''],
      props = on_create_node (uuid_gen (uuids_drawn g)) now answer\<rparr>"
  define r where "r = \<lparr>rid = fresh_rid g, rtype = ''HAS_ANSWER'', src = qid, dst = fresh_nid g,
      rprops = on_create_rel app (uuid_gen (Suc (uuids_drawn g))) now\<rparr>"
  define P where "P = (\<lambda>r::rel. rtype r = ''HAS_ANSWER'' \<and> src r = qid' \<and>
      prop_matches (rprops r) ''has_application_uuid'' (VStr app'))"
  define F where "F = (\<lambda>(ns::node list) (r::rel). map (\<lambda>a. (r, a))
      (filter (\<lambda>a. nid a = dst r \<and> ''Answer'' \<in> set (labels a)) ns))"
  have mm: "merge_matches h app' qid' = concat (map (F (nodes h)) (filter P (rels h)))" for h
    by (simp add: merge_matches_def F_def P_def)
  have g': "nodes (on_create app uuid_gen now answer qid g) = nodes g @ [a]"
    "rels (on_create app uuid_gen now answer qid g) = rels g @ [r]"
    by (simp_all add: on_create_def Let_def a_def r_def)
  have old: "F (nodes g @ [a]) x = F (nodes g) x" if "x \<in> set (rels g)" for x
    using fresh_nid_dst [OF that] by (simp add: F_def a_def)
  have "map (F (nodes g @ [a])) (filter P (rels g)) = map (F (nodes g)) (filter P (rels g))"
    by (rule map_cong) (simp_all add: old)
  then have olds: "concat (map (F (nodes g @ [a])) (filter P (rels g))) = merge_matches g app' qid'"
    by (simp only: mm)
  have "filter (\<lambda>a. nid a = fresh_nid g \<and> ''Answer'' \<in> set (labels a)) (nodes g) = []"
    by (auto simp: filter_empty_conv dest: fresh_nid_nodes)
  then have new: "F (nodes g @ [a]) r = [(r, a)]"
    by (simp add: F_def a_def r_def)
  have "prop_matches (on_create_rel app u now) ''has_application_uuid'' (VStr app') \<longleftrightarrow> app' = app"
    for u
    by (auto simp: on_create_rel_def prop_matches_def map_of_cy_set)
  then have Pr: "P r \<longleftrightarrow> qid' = qid \<and> app' = app"
    by (auto simp: P_def r_def)
  have "merge_matches (on_create app uuid_gen now answer qid g) app' qid' =
      concat (map (F (nodes g @ [a])) (filter P (rels g))) @
      (if P r then F (nodes g @ [a]) r else [])"
    by (simp add: mm g')
  also have "\<dots> = merge_matches g app' qid' @ (if qid' = qid \<and> app' = app then [(r, a)] else [])"
    by (simp only: olds new Pr)
  finally show ?thesis by (simp only: a_def r_def)
qed


lemma save_one_single:
  assumes "map nid (match_question g answer) = [qid]"
  shows "save_one app uuid_gen now answer g = merge_answer app uuid_gen now answer qid g"
  using assms by (simp add: save_one_nids)

lemma merge_answer_create:
  assumes "merge_matches g app qid = []"
  shows "merge_matches (merge_answer app uuid_gen now answer qid g) app qid =
     [(\<lparr>rid = fresh_rid g, rtype = ''HAS_ANSWER'', src = qid, dst = fresh_nid g,
        rprops = on_create_rel app (uuid_gen (Suc (uuids_drawn g))) now\<rparr>,
       \<lparr>nid = fresh_nid g, labels = [''Answer''],
        props = on_create_node (uuid_gen (uuids_drawn g)) now answer\<rparr>)]"
  using assms by (simp add: merge_answer_def merge_matches_on_create)

lemma merge_answer_update:
  assumes "merge_matches g app qid = [(r, a)]"
  shows "merge_matches (merge_answer app uuid_gen now answer qid g) app qid =
     [(r\<lparr>rprops := on_match_rel now (rprops r)\<rparr>,
       a\<lparr>props := on_match_node now answer (props a)\<rparr>)]"
  using assms by (simp add: merge_answer_def merge_matches_on_match)

lemma answer_relationships_single:
  assumes "map nid (match_question g (to_dict t)) = [qid]"
  shows "answer_relationships g (sa_questionUuid t) app = merge_matches g app qid"
proof -
  have "match_question g [(''questionUuid'', VStr (sa_questionUuid t))] =
      match_question g (to_dict t)"
    by (simp add: match_question_def to_dict_def cy_prop_def)
  moreover from assms obtain q where "match_question g (to_dict t) = [q]" "nid q = qid"
    by (cases "match_question g (to_dict t)") auto
  ultimately show ?thesis by (simp add: answer_relationships_def)
qed

lemma to_dict_props:
  "cy_prop (to_dict t) ''answer'' = VStr (sa_answer t)"
  "cy_prop (to_dict t) ''type'' = VStr (AnswerType_value (sa_type t))"
  "cy_prop (to_dict t) ''questionUuid'' = VStr (sa_questionUuid t)"
  by (simp_all add: to_dict_def cy_prop_def)

lemma on_match_node_props:
  "map_of (on_match_node now (to_dict t) ps) ''answer'' = Some (VStr (sa_answer t))"
  "map_of (on_match_node now (to_dict t) ps) ''type'' = Some (VStr (AnswerType_value (sa_type t)))"
  "map_of (on_match_node now (to_dict t) ps) ''updated_at'' = Some (VDateTime now)"
  "map_of (on_match_node now (to_dict t) ps) ''uuid'' = map_of ps ''uuid''"
  "map_of (on_match_node now (to_dict t) ps) ''created_at'' = map_of ps ''created_at''"
  by (simp_all add: on_match_node_def map_of_cy_set to_dict_props)

lemma on_match_rel_props:
  "map_of (on_match_rel now ps) ''updated_at'' = Some (VDateTime now)"
  "map_of (on_match_rel now ps) ''uuid'' = map_of ps ''uuid''"
  "map_of (on_match_rel now ps) ''created_at'' = map_of ps ''created_at''"
  "map_of (on_match_rel now ps) ''has_application_uuid'' = map_of ps ''has_application_uuid''"
  by (simp_all add: on_match_rel_def map_of_cy_set)

lemma first_save_single:
  assumes "map nid (match_question g (to_dict t)) = [qid]"
    and "length (merge_matches g app qid) \<le> 1"
  shows "\<exists>r a. merge_matches (save_one app uuid_gen now (to_dict t) g) app qid = [(r, a)]"
proof (cases "merge_matches g app qid")
  case Nil
  then show ?thesis
    using merge_answer_create [of g app qid] by (simp add: save_one_single [OF assms(1)])
next
  case (Cons m ms)
  with assms(2) have "merge_matches g app qid = [(fst m, snd m)]" by simp
  then show ?thesis
    using merge_answer_update [of g app qid "fst m" "snd m"]
    by (simp add: save_one_single [OF assms(1)])
qed

lemma second_save_single:
  assumes "map nid (match_question g (to_dict t)) = [qid]"
    and "merge_matches g app qid = [(r, a)]"
  shows "merge_matches (save_one app uuid_gen now (to_dict t) g) app qid =
     [(r\<lparr>rprops := on_match_rel now (rprops r)\<rparr>,
       a\<lparr>props := on_match_node now (to_dict t) (props a)\<rparr>)]"
  using merge_answer_update [OF assms(2)] by (simp add: save_one_single [OF assms(1)])

lemma saveAnswers_single:
  "snd (saveAnswers uuid_gen now \<lparr>sai_applicationUuid = app, sai_answers = [t]\<rparr> g) =
     save_one app uuid_gen now (to_dict t) g"
  by (simp add: saveAnswers_def run_save_query_def serialize_def)

section \<open>Evaluation of the examples\<close>

lemmas example_defs =
  example_app_def example_question_def example_answer_def example_rel_def
  example_Answer_def example_Question_def example_Application_def

lemmas run_defs =
  getApplicationWithQuestion_def reconcile_def pick_no_ans_def pick_ans_def
  questions_append_def ans_entry_def no_ans_entry_def Application_marshal_def
  marshal_entry_def Question_marshal_def Answer_marshal_def Let_def

lemma scenarioA_result:
  "getApplicationWithQuestion scenarioA_ans scenarioA_no_ans ''A1'' =
     Inr (example_Application ''Home''
       [example_Question ''Q1'' 2 (Some example_Answer), example_Question ''Q2'' 1 None])"
  by (simp add: run_defs scenarioA_ans_def scenarioA_no_ans_def example_defs)

lemmas save_defs =
  saveAnswers_def run_save_query_def save_one_def match_question_def
  merge_answer_def merge_matches_def on_create_def on_create_node_def on_create_rel_def
  on_match_def on_match_node_def on_match_rel_def
  fresh_nid_def fresh_rid_def cy_set_def cy_prop_def prop_matches_def serialize_def
  to_dict_def example_batch_def example_save_def example_graph_def example_saved_def
  example_uuid_gen_def Let_def

lemma example_first_save:
  "snd (saveAnswers example_uuid_gen 5000 (example_batch [example_save ''Q2'' ''42''])
     example_graph) = example_saved ''42'' 5000 5000"
  by (simp add: save_defs example_defs)

lemma example_second_save:
  "snd (saveAnswers example_uuid_gen 6000 (example_batch [example_save ''Q2'' ''43''])
     (example_saved ''42'' 5000 5000)) = example_saved ''43'' 5000 6000"
  by (simp add: save_defs example_defs)

section \<open>The claims\<close>

text \<open>
  Claim C2. Whenever \<^verbatim>\<open>getApplicationWithQuestion\<close> returns an Application, its questions
  are the answered rows in traversal order, each marshalled together with its answer,
  followed by the unanswered rows in traversal order, each marshalled with no answer; and
  it does return one when there is a row and every row has the keys the marshalling
  reads. Nothing is sorted by \<^verbatim>\<open>order\<close>: in scenario A the result lists \<open>Q1\<close> (order 2)
  before \<open>Q2\<close> (order 1).
\<close>

theorem answered_first_then_unanswered:
  "(\<forall>A. getApplicationWithQuestion ans_query no_ans_query applicationUuid = Inr A \<longrightarrow>
      map Inr (app_questions A) =
        map (\<lambda>r. Question_marshal (VDict (ar_q r)) (VDict (ar_ans r)))
          (ans_query applicationUuid) @
        map (\<lambda>r. Question_marshal (VDict (nr_q r)) VNone) (no_ans_query applicationUuid)) \<and>
   (list_all complete_ans_row (ans_query applicationUuid) \<and>
    list_all complete_no_ans_row (no_ans_query applicationUuid) \<and>
    (ans_query applicationUuid \<noteq> [] \<or> no_ans_query applicationUuid \<noteq> []) \<longrightarrow>
      (\<exists>A. getApplicationWithQuestion ans_query no_ans_query applicationUuid = Inr A))"
proof (intro conjI allI impI)
  fix A
  assume "getApplicationWithQuestion ans_query no_ans_query applicationUuid = Inr A"
  then show "map Inr (app_questions A) =
      map (\<lambda>r. Question_marshal (VDict (ar_q r)) (VDict (ar_ans r))) (ans_query applicationUuid) @
      map (\<lambda>r. Question_marshal (VDict (nr_q r)) VNone) (no_ans_query applicationUuid)"
    using reconcile_questions by (simp add: getApplicationWithQuestion_def)
next
  assume "list_all complete_ans_row (ans_query applicationUuid) \<and>
    list_all complete_no_ans_row (no_ans_query applicationUuid) \<and>
    (ans_query applicationUuid \<noteq> [] \<or> no_ans_query applicationUuid \<noteq> [])"
  then show "\<exists>A. getApplicationWithQuestion ans_query no_ans_query applicationUuid = Inr A"
    using reconcile_total [of "ans_query applicationUuid" "no_ans_query applicationUuid"]
    by (simp add: getApplicationWithQuestion_def)
qed

theorem answered_first_then_unanswered_witness:
  "list_all complete_ans_row (scenarioA_ans ''A1'') \<and>
   list_all complete_no_ans_row (scenarioA_no_ans ''A1'') \<and>
   scenarioA_ans ''A1'' \<noteq> [] \<and>
   getApplicationWithQuestion scenarioA_ans scenarioA_no_ans ''A1'' =
     Inr (example_Application ''Home''
       [example_Question ''Q1'' 2 (Some example_Answer), example_Question ''Q2'' 1 None]) \<and>
   map Inr (app_questions (example_Application ''Home''
       [example_Question ''Q1'' 2 (Some example_Answer), example_Question ''Q2'' 1 None])) =
     [Question_marshal (VDict (example_question ''Q1'' 2)) (VDict example_answer),
      Question_marshal (VDict (example_question ''Q2'' 1)) VNone] \<and>
   map q_order (app_questions (example_Application ''Home''
       [example_Question ''Q1'' 2 (Some example_Answer), example_Question ''Q2'' 1 None])) =
     [VInt 2, VInt 1]"
proof -
  have c: "list_all complete_ans_row (scenarioA_ans ''A1'')"
    "list_all complete_no_ans_row (scenarioA_no_ans ''A1'')" "scenarioA_ans ''A1'' \<noteq> []"
    by (simp_all add: scenarioA_ans_def scenarioA_no_ans_def complete_ans_row_def
        complete_no_ans_row_def has_keys_def application_keys_def question_keys_def
        answer_keys_def example_defs)
  from answered_first_then_unanswered [where ans_query = scenarioA_ans
      and no_ans_query = scenarioA_no_ans and applicationUuid = "''A1''"]
    scenarioA_result c
  show ?thesis
    by (simp add: scenarioA_ans_def scenarioA_no_ans_def example_Application_def
        example_Question_def)
qed

text \<open>
  Claim C4. When both traversals return no row, neither \<^verbatim>\<open>if\<close> binds the local variable
  \<^verbatim>\<open>app\<close>, both loops are skipped, and \<^verbatim>\<open>Application.marshal(app)\<close> on line 199 raises
  \<open>UnboundLocalError\<close>: the operation fails, but not with an error of its own.
\<close>

theorem no_rows_raises_UnboundLocalError:
  assumes "ans_query applicationUuid = []" and "no_ans_query applicationUuid = []"
  shows "getApplicationWithQuestion ans_query no_ans_query applicationUuid =
     Inl (UnboundLocalError ''app'')"
  using assms
  by (simp add: getApplicationWithQuestion_def reconcile_def pick_no_ans_def pick_ans_def)

theorem no_rows_raises_UnboundLocalError_witness:
  "scenarioA_ans ''A2'' = [] \<and> scenarioA_no_ans ''A2'' = [] \<and>
   getApplicationWithQuestion scenarioA_ans scenarioA_no_ans ''A2'' =
     Inl (UnboundLocalError ''app'')"
  using no_rows_raises_UnboundLocalError [of scenarioA_ans "''A2''" scenarioA_no_ans]
  by (simp add: scenarioA_ans_def scenarioA_no_ans_def)


text \<open>
  Claim C3, as stated, fails: the code removes no duplicate. With question \<open>Q1\<close> in
  both traversals the returned list holds \<open>Q1\<close> twice.
\<close>

theorem duplicate_question_counterexample:
  "getApplicationWithQuestion scenarioA_ans overlap_no_ans ''A1'' =
     Inr (example_Application ''Home''
       [example_Question ''Q1'' 2 (Some example_Answer), example_Question ''Q1'' 2 None]) \<and>
   count_list (map q_uuid (app_questions (example_Application ''Home''
       [example_Question ''Q1'' 2 (Some example_Answer), example_Question ''Q1'' 2 None])))
     (VStr ''Q1'') = 2"
  by (simp add: run_defs scenarioA_ans_def overlap_no_ans_def example_defs)

text \<open>
  Claim C3, amended. Whenever the operation returns an Application, the length of its
  question list is the number of answered rows plus the number of unanswered rows, and
  every question id occurs in the list exactly as often as it occurs in the rows of the
  two traversals together (so exactly once when it occurs once in the input).
\<close>

theorem question_ids_keep_multiplicity:
  assumes "getApplicationWithQuestion ans_query no_ans_query applicationUuid = Inr A"
  shows "length (app_questions A) =
       length (ans_query applicationUuid) + length (no_ans_query applicationUuid) \<and>
     (\<forall>x. count_list (map q_uuid (app_questions A)) x =
       count_list (map (\<lambda>r. map_of (ar_q r) ''uuid'') (ans_query applicationUuid)) (Some x) +
       count_list (map (\<lambda>r. map_of (nr_q r) ''uuid'') (no_ans_query applicationUuid)) (Some x))"
  using assms reconcile_length reconcile_count
  by (simp add: getApplicationWithQuestion_def)

theorem question_ids_keep_multiplicity_witness:
  "getApplicationWithQuestion scenarioA_ans scenarioA_no_ans ''A1'' =
     Inr (example_Application ''Home''
       [example_Question ''Q1'' 2 (Some example_Answer), example_Question ''Q2'' 1 None]) \<and>
   length (app_questions (example_Application ''Home''
       [example_Question ''Q1'' 2 (Some example_Answer), example_Question ''Q2'' 1 None])) = 2 \<and>
   count_list (map q_uuid (app_questions (example_Application ''Home''
       [example_Question ''Q1'' 2 (Some example_Answer), example_Question ''Q2'' 1 None])))
     (VStr ''Q2'') = 1"
  using question_ids_keep_multiplicity [OF scenarioA_result] scenarioA_result
  by (simp add: scenarioA_ans_def scenarioA_no_ans_def example_defs)

text \<open>
  Claim C6, as stated, fails: with question \<open>Q1\<close> in both traversals the operation
  raises nothing and returns an Application that lists \<open>Q1\<close> twice.
\<close>

theorem overlap_returns_counterexample:
  "map (\<lambda>r. map_of (ar_q r) ''uuid'') (scenarioA_ans ''A1'') = [Some (VStr ''Q1'')] \<and>
   map (\<lambda>r. map_of (nr_q r) ''uuid'') (overlap_no_ans ''A1'') = [Some (VStr ''Q1'')] \<and>
   getApplicationWithQuestion scenarioA_ans overlap_no_ans ''A1'' =
     Inr \<lparr>app_uuid = VStr ''A1'', app_name = VStr ''Home'', app_version = VStr ''1'',
          app_createdAt = VDateTime 1000, app_updatedAt = VDateTime 1000,
          app_questions =
            [example_Question ''Q1'' 2 (Some example_Answer), example_Question ''Q1'' 2 None]\<rparr>"
  by (simp add: run_defs scenarioA_ans_def overlap_no_ans_def example_defs)

text \<open>
  Claim C6, amended. The engine checks no disjointness: when the rows have every key the
  marshalling reads and a question id is in an answered row \<open>i\<close> and in an unanswered row
  \<open>j\<close>, the operation returns an Application in which the question stands at position
  \<open>i\<close> with an answer and again at position \<open>j\<close> after the answered rows, without one.
\<close>

theorem overlap_emitted_twice:
  assumes "list_all complete_ans_row (ans_query applicationUuid)"
    and "list_all complete_no_ans_row (no_ans_query applicationUuid)"
    and "i < length (ans_query applicationUuid)"
    and "j < length (no_ans_query applicationUuid)"
    and "map_of (ar_q (ans_query applicationUuid ! i)) ''uuid'' = Some x"
    and "map_of (nr_q (no_ans_query applicationUuid ! j)) ''uuid'' = Some x"
  shows "\<exists>A. getApplicationWithQuestion ans_query no_ans_query applicationUuid = Inr A \<and>
     q_uuid (app_questions A ! i) = x \<and> q_answer (app_questions A ! i) \<noteq> None \<and>
     q_uuid (app_questions A ! (length (ans_query applicationUuid) + j)) = x \<and>
     q_answer (app_questions A ! (length (ans_query applicationUuid) + j)) = None"
proof -
  let ?ans = "ans_query applicationUuid" and ?no = "no_ans_query applicationUuid"
  from assms(3) have "?ans \<noteq> [] \<or> ?no \<noteq> []" by auto
  from reconcile_total [OF this assms(1,2)] obtain A where A: "reconcile ?ans ?no = Inr A" ..
  note a = Question_marshal_Inr_D [OF reconcile_answered_nth [OF A assms(3)]]
  note n = Question_marshal_Inr_D [OF reconcile_unanswered_nth [OF A assms(4)]]
  from a(1) assms(5) have "q_uuid (app_questions A ! i) = x" by simp
  moreover from a(6) have "q_answer (app_questions A ! i) \<noteq> None" by auto
  moreover from n(1) assms(6) have "q_uuid (app_questions A ! (length ?ans + j)) = x" by simp
  moreover from n(6) have "q_answer (app_questions A ! (length ?ans + j)) = None" by simp
  ultimately show ?thesis using A by (simp add: getApplicationWithQuestion_def)
qed

theorem overlap_emitted_twice_witness:
  "list_all complete_ans_row (scenarioA_ans ''A1'') \<and>
   list_all complete_no_ans_row (overlap_no_ans ''A1'') \<and>
   (0::nat) < length (scenarioA_ans ''A1'') \<and> (0::nat) < length (overlap_no_ans ''A1'') \<and>
   map_of (ar_q (scenarioA_ans ''A1'' ! 0)) ''uuid'' = Some (VStr ''Q1'') \<and>
   map_of (nr_q (overlap_no_ans ''A1'' ! 0)) ''uuid'' = Some (VStr ''Q1'') \<and>
   (\<exists>A. getApplicationWithQuestion scenarioA_ans overlap_no_ans ''A1'' = Inr A \<and>
     q_uuid (app_questions A ! 0) = VStr ''Q1'' \<and> q_answer (app_questions A ! 0) \<noteq> None \<and>
     q_uuid (app_questions A ! 1) = VStr ''Q1'' \<and> q_answer (app_questions A ! 1) = None)"
proof -
  have h: "list_all complete_ans_row (scenarioA_ans ''A1'')"
    "list_all complete_no_ans_row (overlap_no_ans ''A1'')"
    "(0::nat) < length (scenarioA_ans ''A1'')" "(0::nat) < length (overlap_no_ans ''A1'')"
    "map_of (ar_q (scenarioA_ans ''A1'' ! 0)) ''uuid'' = Some (VStr ''Q1'')"
    "map_of (nr_q (overlap_no_ans ''A1'' ! 0)) ''uuid'' = Some (VStr ''Q1'')"
    by (simp_all add: scenarioA_ans_def overlap_no_ans_def complete_ans_row_def
        complete_no_ans_row_def has_keys_def application_keys_def question_keys_def
        answer_keys_def example_defs)
  have l: "length (scenarioA_ans ''A1'') + 0 = 1" by (simp add: scenarioA_ans_def)
  from overlap_emitted_twice [where ans_query = scenarioA_ans and no_ans_query = overlap_no_ans
      and applicationUuid = "''A1''" and i = 0 and j = 0 and x = "VStr ''Q1''"] h
  show ?thesis unfolding l by simp
qed

text \<open>
  Claim C7, as stated, fails: the answered row carries the application named \<open>Home\<close>,
  the unanswered row the application named \<open>Renamed\<close>; the operation does not fail, and
  returns the header of the unanswered row.
\<close>

theorem differing_projections_counterexample:
  "map ar_app (scenarioA_ans ''A1'') = [example_app ''Home''] \<and>
   map nr_app (renamed_no_ans ''A1'') = [example_app ''Renamed''] \<and>
   example_app ''Home'' \<noteq> example_app ''Renamed'' \<and>
   getApplicationWithQuestion scenarioA_ans renamed_no_ans ''A1'' =
     Inr (example_Application ''Renamed''
       [example_Question ''Q1'' 2 (Some example_Answer), example_Question ''Q2'' 1 None])"
  by (simp add: run_defs scenarioA_ans_def renamed_no_ans_def example_defs)

text \<open>
  Claim C7, amended. The engine compares no projections. When there is an unanswered row,
  the application projections of the answered rows are ignored altogether and the header
  fields of a returned Application are those of the first unanswered row; when there are
  only answered rows, they are those of the first answered row.
\<close>

theorem header_from_unanswered_else_answered:
  "(\<forall>f. no_ans_query applicationUuid \<noteq> [] \<longrightarrow>
      getApplicationWithQuestion (\<lambda>u. map (ar_app_update f) (ans_query u)) no_ans_query
        applicationUuid =
      getApplicationWithQuestion ans_query no_ans_query applicationUuid) \<and>
   (\<forall>A. getApplicationWithQuestion ans_query no_ans_query applicationUuid = Inr A \<longrightarrow>
      (\<forall>n ns. no_ans_query applicationUuid = n # ns \<longrightarrow> header_from (nr_app n) A) \<and>
      (\<forall>a as. no_ans_query applicationUuid = [] \<and> ans_query applicationUuid = a # as \<longrightarrow>
         header_from (ar_app a) A))"
proof (intro conjI allI impI)
  fix f assume "no_ans_query applicationUuid \<noteq> []"
  then show "getApplicationWithQuestion (\<lambda>u. map (ar_app_update f) (ans_query u)) no_ans_query
        applicationUuid = getApplicationWithQuestion ans_query no_ans_query applicationUuid"
    by (simp add: getApplicationWithQuestion_def reconcile_ignores_answered_app)
next
  fix A n ns
  assume "getApplicationWithQuestion ans_query no_ans_query applicationUuid = Inr A"
    and "no_ans_query applicationUuid = n # ns"
  then show "header_from (nr_app n) A"
    using reconcile_Inr_D(1) [of "ans_query applicationUuid" "no_ans_query applicationUuid" A]
    by (simp add: getApplicationWithQuestion_def)
next
  fix A a as
  assume "getApplicationWithQuestion ans_query no_ans_query applicationUuid = Inr A"
    and "no_ans_query applicationUuid = [] \<and> ans_query applicationUuid = a # as"
  then show "header_from (ar_app a) A"
    using reconcile_Inr_D(1) [of "ans_query applicationUuid" "no_ans_query applicationUuid" A]
    by (simp add: getApplicationWithQuestion_def)
qed


theorem header_from_unanswered_else_answered_witness:
  "renamed_no_ans ''A1'' \<noteq> [] \<and>
   getApplicationWithQuestion
     (\<lambda>u. map (ar_app_update (\<lambda>p. example_app ''Other'')) (scenarioA_ans u)) renamed_no_ans ''A1'' =
     getApplicationWithQuestion scenarioA_ans renamed_no_ans ''A1'' \<and>
   getApplicationWithQuestion scenarioA_ans renamed_no_ans ''A1'' =
     Inr (example_Application ''Renamed''
       [example_Question ''Q1'' 2 (Some example_Answer), example_Question ''Q2'' 1 None]) \<and>
   renamed_no_ans ''A1'' =
     [\<lparr>nr_app = example_app ''Renamed'', nr_q = example_question ''Q2'' 1\<rparr>] \<and>
   header_from (example_app ''Renamed'') (example_Application ''Renamed''
       [example_Question ''Q1'' 2 (Some example_Answer), example_Question ''Q2'' 1 None]) \<and>
   getApplicationWithQuestion scenarioA_ans (\<lambda>u. []) ''A1'' =
     Inr (example_Application ''Home'' [example_Question ''Q1'' 2 (Some example_Answer)]) \<and>
   scenarioA_ans ''A1'' =
     [\<lparr>ar_app = example_app ''Home'', ar_q = example_question ''Q1'' 2,
       ar_qa = example_rel, ar_ans = example_answer\<rparr>] \<and>
   header_from (example_app ''Home'')
     (example_Application ''Home'' [example_Question ''Q1'' 2 (Some example_Answer)])"
proof -
  have r: "getApplicationWithQuestion scenarioA_ans renamed_no_ans ''A1'' =
     Inr (example_Application ''Renamed''
       [example_Question ''Q1'' 2 (Some example_Answer), example_Question ''Q2'' 1 None])"
    by (simp add: run_defs scenarioA_ans_def renamed_no_ans_def example_defs)
  have a: "getApplicationWithQuestion scenarioA_ans (\<lambda>u. []) ''A1'' =
     Inr (example_Application ''Home'' [example_Question ''Q1'' 2 (Some example_Answer)])"
    by (simp add: run_defs scenarioA_ans_def example_defs)
  have n: "renamed_no_ans ''A1'' =
     [\<lparr>nr_app = example_app ''Renamed'', nr_q = example_question ''Q2'' 1\<rparr>]"
    by (simp add: renamed_no_ans_def)
  have s: "scenarioA_ans ''A1'' =
     [\<lparr>ar_app = example_app ''Home'', ar_q = example_question ''Q1'' 2,
       ar_qa = example_rel, ar_ans = example_answer\<rparr>]"
    by (simp add: scenarioA_ans_def)
  from header_from_unanswered_else_answered [of renamed_no_ans "''A1''" scenarioA_ans]
    header_from_unanswered_else_answered [of "\<lambda>u. []" "''A1''" scenarioA_ans]
  show ?thesis using r a n s by simp
qed

text \<open>
  Claim C8. A property map that lacks a key the marshalling reads makes \<^verbatim>\<open>marshal\<close> raise
  \<open>KeyError\<close> (Python's exception for a missing field) instead of building a record:
  for \<^verbatim>\<open>Answer.marshal\<close> and \<^verbatim>\<open>Application.marshal\<close> with the first missing key, for
  \<^verbatim>\<open>Question.marshal\<close> whether the key is missing in the question or in its answer. A
  question marshalled without an answer has the answer \<open>None\<close>.
\<close>

theorem missing_key_raises_KeyError:
  "(\<not> has_keys answer_keys d \<longrightarrow>
      (\<exists>k. k \<in> set answer_keys \<and> map_of d k = None \<and>
        Answer_marshal (VDict d) = Inl (KeyError k))) \<and>
   (\<not> has_keys question_keys q \<and> (a = VNone \<or> (\<exists>ad. a = VDict ad)) \<longrightarrow>
      (\<exists>k. Question_marshal (VDict q) a = Inl (KeyError k))) \<and>
   (\<not> has_keys answer_keys d \<longrightarrow>
      (\<exists>k. Question_marshal (VDict q) (VDict d) = Inl (KeyError k))) \<and>
   (\<not> has_keys application_keys p \<longrightarrow>
      (\<exists>k. k \<in> set application_keys \<and> map_of p k = None \<and>
        Application_marshal (VDict p) = Inl (KeyError k))) \<and>
   (has_keys question_keys q \<longrightarrow>
      (\<exists>Q. Question_marshal (VDict q) VNone = Inr Q \<and> q_answer Q = None))"
proof (intro conjI impI)
  assume "\<not> has_keys answer_keys d"
  then show "\<exists>k. k \<in> set answer_keys \<and> map_of d k = None \<and>
      Answer_marshal (VDict d) = Inl (KeyError k)"
    by (rule Answer_marshal_missing)
next
  assume "\<not> has_keys question_keys q \<and> (a = VNone \<or> (\<exists>ad. a = VDict ad))"
  then show "\<exists>k. Question_marshal (VDict q) a = Inl (KeyError k)"
    using Question_marshal_missing by blast
next
  assume "\<not> has_keys answer_keys d"
  then show "\<exists>k. Question_marshal (VDict q) (VDict d) = Inl (KeyError k)"
    by (rule Question_marshal_answer_missing)
next
  assume "\<not> has_keys application_keys p"
  then show "\<exists>k. k \<in> set application_keys \<and> map_of p k = None \<and>
      Application_marshal (VDict p) = Inl (KeyError k)"
    by (rule Application_marshal_missing)
next
  assume "has_keys question_keys q"
  then obtain Q where Q: "Question_marshal (VDict q) VNone = Inr Q"
    using Question_marshal_total [of q VNone] by auto
  from Question_marshal_Inr_D(6) [OF Q] have "q_answer Q = None" by simp
  with Q show "\<exists>Q. Question_marshal (VDict q) VNone = Inr Q \<and> q_answer Q = None" by blast
qed

theorem missing_key_raises_KeyError_witness:
  "\<not> has_keys answer_keys [(''uuid'', VStr ''N1'')] \<and>
   Answer_marshal (VDict [(''uuid'', VStr ''N1'')]) = Inl (KeyError ''answer'') \<and>
   \<not> has_keys question_keys [(''uuid'', VStr ''Q1'')] \<and>
   Question_marshal (VDict [(''uuid'', VStr ''Q1'')]) VNone = Inl (KeyError ''section_uuid'') \<and>
   Question_marshal (VDict [(''uuid'', VStr ''Q1'')]) (VDict [(''uuid'', VStr ''N1'')]) =
     Inl (KeyError ''answer'') \<and>
   \<not> has_keys application_keys [(''uuid'', VStr ''A1'')] \<and>
   Application_marshal (VDict [(''uuid'', VStr ''A1'')]) = Inl (KeyError ''name'') \<and>
   has_keys question_keys (example_question ''Q2'' 1) \<and>
   Question_marshal (VDict (example_question ''Q2'' 1)) VNone =
     Inr (example_Question ''Q2'' 1 None) \<and>
   q_answer (example_Question ''Q2'' 1 None) = None"
  using missing_key_raises_KeyError [of "[(''uuid'', VStr ''N1'')]" "[(''uuid'', VStr ''Q1'')]"
      VNone "[(''uuid'', VStr ''A1'')]"]
    missing_key_raises_KeyError [of "[(''uuid'', VStr ''N1'')]" "example_question ''Q2'' 1"
      VNone "[(''uuid'', VStr ''A1'')]"]
  by (simp add: has_keys_def answer_keys_def question_keys_def application_keys_def
      Answer_marshal_def Question_marshal_def Application_marshal_def example_defs)




text \<open>
  Claim C10. For every batch, every application uuid and every store, \<^verbatim>\<open>saveAnswers\<close>
  returns \<open>None\<close>: no Question is handed back to the caller.
\<close>

theorem saveAnswers_returns_None:
  "fst (saveAnswers uuid_gen now data g) = None"
  by (simp add: saveAnswers_def)

theorem saveAnswers_returns_None_witness:
  "fst (saveAnswers example_uuid_gen 5000 (example_batch [example_save ''Q2'' ''42''])
     example_graph) = None \<and>
   fst (saveAnswers example_uuid_gen 5000
     \<lparr>sai_applicationUuid = [CHR ''A'', CHR 0x27, CHR ''1''],
      sai_answers = [example_save ''Q2'' ''42'']\<rparr> example_graph) = None"
  using saveAnswers_returns_None [of example_uuid_gen 5000
      "example_batch [example_save ''Q2'' ''42'']" example_graph]
    saveAnswers_returns_None [of example_uuid_gen 5000
      "\<lparr>sai_applicationUuid = [CHR ''A'', CHR 0x27, CHR ''1''],
        sai_answers = [example_save ''Q2'' ''42'']\<rparr>" example_graph]
  by simp

text \<open>
  Claim C5, as stated, fails: the store has no question \<open>Q99\<close>; a batch with a triple
  for \<open>Q99\<close> and one for \<open>Q2\<close> raises nothing, returns \<open>None\<close>, and leaves the store as
  the triple for \<open>Q2\<close> alone would.
\<close>

theorem unknown_question_dropped_counterexample:
  "match_question example_graph (to_dict (example_save ''Q99'' ''x'')) = [] \<and>
   saveAnswers example_uuid_gen 5000
     (example_batch [example_save ''Q99'' ''x'', example_save ''Q2'' ''42'']) example_graph =
     (None, example_saved ''42'' 5000 5000)"
  by (simp add: saveAnswers_def run_save_query_def save_one_def match_question_def
      merge_answer_def merge_matches_def on_create_def on_create_node_def on_create_rel_def
      fresh_nid_def fresh_rid_def cy_set_def cy_prop_def prop_matches_def serialize_def
      to_dict_def example_batch_def example_save_def example_graph_def example_saved_def
      example_uuid_gen_def example_defs Let_def)

text \<open>
  Claim C5, amended. Let the application uuid be spliced into the query unchanged (it
  has no single quote and no backslash). Then a triple of the batch whose
  \<open>questionUuid\<close> matches no Question of the store is skipped: \<^verbatim>\<open>saveAnswers\<close> raises no
  error, returns \<open>None\<close>, and leaves the store exactly as the batch without that triple
  does.
\<close>

theorem unknown_question_skipped:
  assumes "splice_ok (sai_applicationUuid data)"
    and "sai_answers data = ts1 @ t # ts2"
    and "match_question g (to_dict t) = []"
  shows "saveAnswers uuid_gen now data g =
     saveAnswers uuid_gen now (data\<lparr>sai_answers := ts1 @ ts2\<rparr>) g \<and>
     fst (saveAnswers uuid_gen now data g) = None"
  using assms(2) run_save_query_skip [OF assms(3)]
  by (simp add: saveAnswers_def serialize_def)

theorem unknown_question_skipped_witness:
  "splice_ok (sai_applicationUuid
     (example_batch [example_save ''Q99'' ''x'', example_save ''Q2'' ''42''])) \<and>
   sai_answers (example_batch [example_save ''Q99'' ''x'', example_save ''Q2'' ''42'']) =
     [] @ example_save ''Q99'' ''x'' # [example_save ''Q2'' ''42''] \<and>
   match_question example_graph (to_dict (example_save ''Q99'' ''x'')) = [] \<and>
   saveAnswers example_uuid_gen 5000
     (example_batch [example_save ''Q99'' ''x'', example_save ''Q2'' ''42'']) example_graph =
   saveAnswers example_uuid_gen 5000 (example_batch [example_save ''Q2'' ''42'']) example_graph \<and>
   fst (saveAnswers example_uuid_gen 5000
     (example_batch [example_save ''Q99'' ''x'', example_save ''Q2'' ''42'']) example_graph) = None"
proof -
  have h: "splice_ok (sai_applicationUuid
      (example_batch [example_save ''Q99'' ''x'', example_save ''Q2'' ''42'']))"
    "sai_answers (example_batch [example_save ''Q99'' ''x'', example_save ''Q2'' ''42'']) =
      [] @ example_save ''Q99'' ''x'' # [example_save ''Q2'' ''42'']"
    "match_question example_graph (to_dict (example_save ''Q99'' ''x'')) = []"
    by (simp_all add: splice_ok_def example_batch_def match_question_def example_graph_def
        to_dict_def example_save_def cy_prop_def prop_matches_def example_defs)
  from unknown_question_skipped [OF h, of example_uuid_gen 5000] h
  show ?thesis by (simp add: example_batch_def) (simp add: saveAnswers_def)
qed

text \<open>
  Claim C1, as stated for every triple, fails: the store has no question \<open>Q99\<close>, and
  after the triple for \<open>Q99\<close> has been saved twice for application \<open>A1\<close> the store holds
  no answer-relationship keyed by \<open>(Q99, A1)\<close>, not one.
\<close>

theorem unknown_question_no_relationship_counterexample:
  "answer_relationships
     (snd (saveAnswers example_uuid_gen 6000 (example_batch [example_save ''Q99'' ''x''])
       (snd (saveAnswers example_uuid_gen 5000 (example_batch [example_save ''Q99'' ''x''])
         example_graph))))
     ''Q99'' ''A1'' = []"
  by (simp add: answer_relationships_def save_defs example_defs)

text \<open>
  Claim C1, amended. Let the application uuid be spliced into the query unchanged, let
  exactly one Question node of the store have the triple's \<open>questionUuid\<close>, and let the
  store hold at most one answer-relationship for the pair. Then after a first save of a
  triple and a second save for the same question and application (with the same or
  another answer and type) the store holds exactly one answer-relationship keyed by the
  pair, after the first save and after the second; the second save sets the Answer's
  \<open>answer\<close>, \<open>type\<close> and \<open>updated_at\<close> and the relationship's \<open>updated_at\<close>, and
  leaves the identities, the \<open>uuid\<close> and the \<open>created_at\<close> of the Answer and of the
  relationship as the first save left them.
\<close>

theorem save_twice_one_relationship:
  assumes "splice_ok app"
    and "map nid (match_question g (to_dict t)) = [qid]"
    and "length (merge_matches g app qid) \<le> 1"
    and "sa_questionUuid t' = sa_questionUuid t"
  shows "\<exists>r1 a1 r2 a2.
     answer_relationships
       (snd (saveAnswers gen1 now1 \<lparr>sai_applicationUuid = app, sai_answers = [t]\<rparr> g))
       (sa_questionUuid t) app = [(r1, a1)] \<and>
     answer_relationships
       (snd (saveAnswers gen2 now2 \<lparr>sai_applicationUuid = app, sai_answers = [t']\<rparr>
         (snd (saveAnswers gen1 now1 \<lparr>sai_applicationUuid = app, sai_answers = [t]\<rparr> g))))
       (sa_questionUuid t) app = [(r2, a2)] \<and>
     rid r2 = rid r1 \<and> nid a2 = nid a1 \<and>
     map_of (props a2) ''answer'' = Some (VStr (sa_answer t')) \<and>
     map_of (props a2) ''type'' = Some (VStr (AnswerType_value (sa_type t'))) \<and>
     map_of (props a2) ''updated_at'' = Some (VDateTime now2) \<and>
     map_of (rprops r2) ''updated_at'' = Some (VDateTime now2) \<and>
     map_of (props a2) ''uuid'' = map_of (props a1) ''uuid'' \<and>
     map_of (rprops r2) ''uuid'' = map_of (rprops r1) ''uuid'' \<and>
     map_of (props a2) ''created_at'' = map_of (props a1) ''created_at'' \<and>
     map_of (rprops r2) ''created_at'' = map_of (rprops r1) ''created_at''"
proof -
  let ?g1 = "save_one app gen1 now1 (to_dict t) g"
  let ?g2 = "save_one app gen2 now2 (to_dict t') ?g1"
  have same: "match_question h (to_dict t') = match_question h (to_dict t)" for h
    using assms(4) by (simp add: match_question_def to_dict_props)
  have q1: "map nid (match_question ?g1 (to_dict t)) = [qid]"
    using match_question_nids_cong [OF qkey_save_one] assms(2) by simp
  then have q1': "map nid (match_question ?g1 (to_dict t')) = [qid]"
    by (simp only: same)
  have q2: "map nid (match_question ?g2 (to_dict t)) = [qid]"
    using match_question_nids_cong [OF qkey_save_one] q1 by simp
  from first_save_single [OF assms(2,3)] obtain r1 a1 where
    m1: "merge_matches ?g1 app qid = [(r1, a1)]" by blast
  from second_save_single [OF q1' m1]
  have m2: "merge_matches ?g2 app qid =
     [(r1\<lparr>rprops := on_match_rel now2 (rprops r1)\<rparr>,
       a1\<lparr>props := on_match_node now2 (to_dict t') (props a1)\<rparr>)]" .
  show ?thesis
    unfolding saveAnswers_single
    by (rule exI [of _ r1], rule exI [of _ a1],
        rule exI [of _ "r1\<lparr>rprops := on_match_rel now2 (rprops r1)\<rparr>"],
        rule exI [of _ "a1\<lparr>props := on_match_node now2 (to_dict t') (props a1)\<rparr>"])
      (simp add: answer_relationships_single [OF q1] answer_relationships_single [OF q2]
        m1 m2 on_match_node_props on_match_rel_props)
qed

theorem save_twice_one_relationship_witness:
  "splice_ok ''A1'' \<and>
   map nid (match_question example_graph (to_dict (example_save ''Q2'' ''42''))) = [2] \<and>
   length (merge_matches example_graph ''A1'' 2) \<le> 1 \<and>
   sa_questionUuid (example_save ''Q2'' ''43'') = sa_questionUuid (example_save ''Q2'' ''42'') \<and>
   snd (saveAnswers example_uuid_gen 5000 (example_batch [example_save ''Q2'' ''42''])
     example_graph) = example_saved ''42'' 5000 5000 \<and>
   snd (saveAnswers example_uuid_gen 6000 (example_batch [example_save ''Q2'' ''43''])
     (example_saved ''42'' 5000 5000)) = example_saved ''43'' 5000 6000 \<and>
   (\<exists>r1 a1 r2 a2.
     answer_relationships (example_saved ''42'' 5000 5000) ''Q2'' ''A1'' = [(r1, a1)] \<and>
     answer_relationships (example_saved ''43'' 5000 6000) ''Q2'' ''A1'' = [(r2, a2)] \<and>
     rid r2 = rid r1 \<and> nid a2 = nid a1 \<and>
     map_of (props a2) ''answer'' = Some (VStr ''43'') \<and>
     map_of (props a2) ''type'' = Some (VStr ''Int'') \<and>
     map_of (props a2) ''updated_at'' = Some (VDateTime 6000) \<and>
     map_of (rprops r2) ''updated_at'' = Some (VDateTime 6000) \<and>
     map_of (props a2) ''uuid'' = map_of (props a1) ''uuid'' \<and>
     map_of (rprops r2) ''uuid'' = map_of (rprops r1) ''uuid'' \<and>
     map_of (props a2) ''created_at'' = map_of (props a1) ''created_at'' \<and>
     map_of (rprops r2) ''created_at'' = map_of (rprops r1) ''created_at'')"
proof -
  have h: "splice_ok ''A1''"
    "map nid (match_question example_graph (to_dict (example_save ''Q2'' ''42''))) = [2]"
    "length (merge_matches example_graph ''A1'' 2) \<le> 1"
    "sa_questionUuid (example_save ''Q2'' ''43'') = sa_questionUuid (example_save ''Q2'' ''42'')"
    by (simp_all add: splice_ok_def match_question_def merge_matches_def to_dict_def
        example_save_def example_graph_def cy_prop_def prop_matches_def example_defs)
  have s1: "snd (saveAnswers example_uuid_gen 5000
      \<lparr>sai_applicationUuid = ''A1'', sai_answers = [example_save ''Q2'' ''42'']\<rparr>
      example_graph) = example_saved ''42'' 5000 5000"
    using example_first_save by (simp add: example_batch_def)
  have s2: "snd (saveAnswers example_uuid_gen 6000
      \<lparr>sai_applicationUuid = ''A1'', sai_answers = [example_save ''Q2'' ''43'']\<rparr>
      (example_saved ''42'' 5000 5000)) = example_saved ''43'' 5000 6000"
    using example_second_save by (simp add: example_batch_def)
  have e: "sa_questionUuid (example_save ''Q2'' ''42'') = ''Q2''"
    "sa_answer (example_save ''Q2'' ''43'') = ''43''"
    "AnswerType_value (sa_type (example_save ''Q2'' ''43'')) = ''Int''"
    by (simp_all add: example_save_def)
  from save_twice_one_relationship [OF h, of example_uuid_gen 5000 example_uuid_gen 6000]
  show ?thesis
    unfolding s1 s2 e using h example_first_save example_second_save
    by (simp add: example_save_def)
qed

end
